theory Spec2Isabelle
  imports Complex_Main
begin

section \<open>Values and Python primitives\<close>

text \<open>
  The sources compute with NumPy double-precision numbers and use not-a-number both as the
  company-failure marker and as the undefined value of an oscillator. A number is modelled as
  either \<open>NaN\<close> or the real value of a double: \<open>NaN\<close> propagates through arithmetic and
  every comparison with it is false, as in IEEE 754. Sums, products and means are exact. The
  one place where the code takes the integer part of a quotient, the number of shares in
  \<open>buy\<close>, is rounded as the machine rounds it (\<open>round_double\<close> below). Overflow, subnormal
  numbers and infinities are not modelled; the only divisions by zero the sources can perform
  are handled where they occur (the mean of an empty slice, and the quotient that \<open>int\<close>
  refuses in \<open>buy\<close>).
\<close>

datatype error = IndexError | ValueError | OverflowError | UnboundLocalError | ZeroDivisionError | TypeError

datatype pyfloat = NaN | Fin real

fun isnan :: "pyfloat \<Rightarrow> bool" where
  "isnan NaN = True"
| "isnan (Fin x) = False"

fun fadd :: "pyfloat \<Rightarrow> pyfloat \<Rightarrow> pyfloat" where
  "fadd (Fin x) (Fin y) = Fin (x + y)"
| "fadd _ _ = NaN"

fun fsub :: "pyfloat \<Rightarrow> pyfloat \<Rightarrow> pyfloat" where
  "fsub (Fin x) (Fin y) = Fin (x - y)"
| "fsub _ _ = NaN"

fun fmul :: "pyfloat \<Rightarrow> pyfloat \<Rightarrow> pyfloat" where
  "fmul (Fin x) (Fin y) = Fin (x * y)"
| "fmul _ _ = NaN"

fun fneg :: "pyfloat \<Rightarrow> pyfloat" where
  "fneg (Fin x) = Fin (- x)"
| "fneg NaN = NaN"

fun flt :: "pyfloat \<Rightarrow> pyfloat \<Rightarrow> bool" where
  "flt (Fin x) (Fin y) = (x < y)"
| "flt _ _ = False"

fun fle :: "pyfloat \<Rightarrow> pyfloat \<Rightarrow> bool" where
  "fle (Fin x) (Fin y) = (x \<le> y)"
| "fle _ _ = False"

fun fgt :: "pyfloat \<Rightarrow> pyfloat \<Rightarrow> bool" where
  "fgt (Fin x) (Fin y) = (x > y)"
| "fgt _ _ = False"

fun fge :: "pyfloat \<Rightarrow> pyfloat \<Rightarrow> bool" where
  "fge (Fin x) (Fin y) = (x \<ge> y)"
| "fge _ _ = False"

text \<open>\<open>xs[i]\<close> on a Python list or a one-dimensional array: an index below zero counts
  from the end, and an index outside \<open>-len .. len-1\<close> raises.\<close>

definition py_get :: "'a list \<Rightarrow> int \<Rightarrow> error + 'a" where
  "py_get xs i =
     (if 0 \<le> i \<and> i < int (length xs) then Inr (xs ! nat i)
      else if - int (length xs) \<le> i \<and> i < 0 then Inr (xs ! nat (int (length xs) + i))
      else Inl IndexError)"

text \<open>\<open>xs[a:b]\<close>: both bounds are first shifted by the length when negative, then clipped
  to \<open>0 .. len\<close>.\<close>

definition py_bound :: "nat \<Rightarrow> int \<Rightarrow> nat" where
  "py_bound len i = (if i < 0 then nat (max 0 (int len + i)) else min (nat i) len)"

definition py_slice :: "'a list \<Rightarrow> int \<Rightarrow> int \<Rightarrow> 'a list" where
  "py_slice xs a b = take (py_bound (length xs) b - py_bound (length xs) a) (drop (py_bound (length xs) a) xs)"

text \<open>\<open>int(x)\<close> on a finite number truncates toward zero.\<close>

definition py_trunc :: "real \<Rightarrow> int" where
  "py_trunc x = (if 0 \<le> x then \<lfloor>x\<rfloor> else \<lceil>x\<rceil>)"

text \<open>Rounding to the nearest integer, a tie to the even one.\<close>

definition round_half_even :: "real \<Rightarrow> int" where
  "round_half_even r =
     (if r - of_int \<lfloor>r\<rfloor> < 1 / 2 then \<lfloor>r\<rfloor>
      else if r - of_int \<lfloor>r\<rfloor> > 1 / 2 then \<lfloor>r\<rfloor> + 1
      else if even \<lfloor>r\<rfloor> then \<lfloor>r\<rfloor> else \<lfloor>r\<rfloor> + 1)"

text \<open>
  Rounding to the nearest double, a tie to the even significand. For \<open>x\<close> other than zero,
  \<open>e\<close> with \<open>2^e \<le> |x| < 2^(e+1)\<close> is found by halving or doubling, and \<open>|x|\<close> is rounded
  to a multiple of \<open>2^(e-52)\<close>: a significand of 53 bits, with no bound on the exponent.
  \<open>round_double (83 / 10)\<close> is the double that Python reads from \<open>8.3\<close>.
\<close>

function exp2_up :: "real \<Rightarrow> int" where
  "exp2_up x = (if x < 2 then 0 else 1 + exp2_up (x / 2))"
  by pat_completeness auto
termination
proof (relation "measure (\<lambda>x. nat \<lfloor>x\<rfloor>)")
  show "wf (measure (\<lambda>x::real. nat \<lfloor>x\<rfloor>))" by simp
next
  fix x :: real assume "\<not> x < 2"
  then have x: "2 \<le> x" by simp
  then have "x / 2 \<le> x - 1" by simp
  then have "\<lfloor>x / 2\<rfloor> \<le> \<lfloor>x - 1\<rfloor>" by (rule floor_mono)
  then have "\<lfloor>x / 2\<rfloor> < \<lfloor>x\<rfloor>" by simp
  moreover have "0 < \<lfloor>x\<rfloor>" using x by simp
  ultimately show "(x / 2, x) \<in> measure (\<lambda>x. nat \<lfloor>x\<rfloor>)" by simp
qed

function exp2_down :: "real \<Rightarrow> int" where
  "exp2_down x = (if x \<le> 0 \<or> 1 \<le> x then 0 else exp2_down (2 * x) - 1)"
  by pat_completeness auto
termination
proof (relation "measure (\<lambda>x. nat \<lceil>1 / x\<rceil>)")
  show "wf (measure (\<lambda>x::real. nat \<lceil>1 / x\<rceil>))" by simp
next
  fix x :: real assume "\<not> (x \<le> 0 \<or> 1 \<le> x)"
  then have x: "0 < x" "x < 1" by simp_all
  then have y: "1 < 1 / x" by simp
  then have c: "2 \<le> \<lceil>1 / x\<rceil>" by linarith
  have "1 / x \<le> of_int \<lceil>1 / x\<rceil>" by (rule le_of_int_ceiling)
  then have "1 / (2 * x) \<le> of_int \<lceil>1 / x\<rceil> / 2" by simp
  also have "\<dots> \<le> of_int (\<lceil>1 / x\<rceil> - 1)" using c by simp
  finally have "1 / (2 * x) \<le> of_int (\<lceil>1 / x\<rceil> - 1)" .
  then have "\<lceil>1 / (2 * x)\<rceil> \<le> \<lceil>1 / x\<rceil> - 1" by (rule ceiling_le)
  then have "nat \<lceil>1 / (2 * x)\<rceil> < nat \<lceil>1 / x\<rceil>" using c by linarith
  then show "(2 * x, x) \<in> measure (\<lambda>x. nat \<lceil>1 / x\<rceil>)" by (simp only: in_measure)
qed

definition pow2 :: "int \<Rightarrow> real" where
  "pow2 e = (if 0 \<le> e then 2 ^ nat e else 1 / 2 ^ nat (- e))"

definition round_double :: "real \<Rightarrow> real" where
  "round_double x =
     (if x = 0 then 0
      else sgn x * real_of_int (round_half_even (\<bar>x\<bar> / pow2 ((if 1 \<le> \<bar>x\<bar> then exp2_up \<bar>x\<bar> else exp2_down \<bar>x\<bar>) - 52)))
             * pow2 ((if 1 \<le> \<bar>x\<bar> then exp2_up \<bar>x\<bar> else exp2_down \<bar>x\<bar>) - 52))"


declare exp2_up.simps [simp del] exp2_down.simps [simp del]

text \<open>\<open>int(a / p)\<close> for a NumPy divisor \<open>p\<close>: the quotient is a double. A zero divisor
  gives an infinity or not-a-number (with a warning only), which \<open>int\<close> then refuses, as it
  refuses the not-a-number that a failed price produces.\<close>

definition py_int_div :: "real \<Rightarrow> pyfloat \<Rightarrow> error + int" where
  "py_int_div a p =
     (case p of
        NaN \<Rightarrow> Inl ValueError
      | Fin q \<Rightarrow> if q = 0 then (if a = 0 then Inl ValueError else Inl OverflowError)
                 else Inr (py_trunc (round_double (a / q))))"

text \<open>A for loop whose body may raise: the first exception ends the loop.\<close>

fun for_loop :: "'i list \<Rightarrow> ('i \<Rightarrow> 's \<Rightarrow> error + 's) \<Rightarrow> 's \<Rightarrow> error + 's" where
  "for_loop [] body s = Inr s"
| "for_loop (i # is) body s =
     (case body i s of Inl e \<Rightarrow> Inl e | Inr s' \<Rightarrow> for_loop is body s')"

subsection \<open>The price array\<close>

text \<open>A two-dimensional array of shape \<open>(shape0, shape1)\<close>: rows are days, columns are
  stocks. The indices the sources pass to it come from \<open>range\<close> and are natural numbers;
  the one exception, the last day \<open>days-1\<close>, is guarded where it is used.\<close>

record matrix =
  shape0 :: nat
  shape1 :: nat
  cell :: "nat \<Rightarrow> nat \<Rightarrow> pyfloat"

definition mat_get :: "matrix \<Rightarrow> nat \<Rightarrow> nat \<Rightarrow> error + pyfloat" where
  "mat_get a d s = (if d < shape0 a \<and> s < shape1 a then Inr (cell a d s) else Inl IndexError)"

definition column :: "matrix \<Rightarrow> nat \<Rightarrow> pyfloat list" where
  "column a s = map (\<lambda>d. cell a d s) [0..<shape0 a]"

definition of_rows :: "pyfloat list list \<Rightarrow> matrix" where
  "of_rows rs = \<lparr>shape0 = length rs, shape1 = (if rs = [] then 0 else length (hd rs)),
                 cell = (\<lambda>d s. rs ! d ! s)\<rparr>"

section \<open>process.py: the ledger and the portfolio\<close>

text \<open>One line of the ledger file, before formatting. The file is the list of its lines in
  the order written; \<open>ledger_text\<close> gives the characters of each line.\<close>

record entry =
  e_type :: string
  e_date :: nat
  e_stock :: nat
  e_shares :: int
  e_price :: pyfloat
  e_cash :: pyfloat

type_synonym ledger = "entry list"

fun str_nat :: "nat \<Rightarrow> string" where
  "str_nat n = (if n < 10 then [''0123456789'' ! n]
                else str_nat (n div 10) @ [''0123456789'' ! (n mod 10)])"

definition str_int :: "int \<Rightarrow> string" where
  "str_int i = (if i < 0 then ''-'' @ str_nat (nat (- i)) else str_nat (nat i))"

text \<open>The format \<open>{:.2f}\<close>.\<close>

fun fmt2 :: "pyfloat \<Rightarrow> string" where
  "fmt2 NaN = ''nan''"
| "fmt2 (Fin x) =
     (if x < 0 then ''-'' else '''') @ str_nat (nat (round_half_even (\<bar>x\<bar> * 100) div 100)) @ ''.''
       @ [''0123456789'' ! (nat (round_half_even (\<bar>x\<bar> * 100) mod 100) div 10),
          ''0123456789'' ! (nat (round_half_even (\<bar>x\<bar> * 100) mod 100) mod 10)]"

definition text_line :: "entry \<Rightarrow> string" where
  "text_line e = e_type e @ '','' @ str_nat (e_date e) @ '','' @ str_nat (e_stock e) @ '',''
                  @ str_int (e_shares e) @ '','' @ fmt2 (e_price e) @ '','' @ fmt2 (e_cash e)"

definition ledger_text :: "ledger \<Rightarrow> string list" where
  "ledger_text l = map text_line l"

definition log_transaction ::
  "string \<Rightarrow> nat \<Rightarrow> nat \<Rightarrow> int \<Rightarrow> pyfloat \<Rightarrow> real \<Rightarrow> ledger \<Rightarrow> error + ledger" where
  "log_transaction transaction_type date stock number_of_shares price fees ledger_file =
     (if transaction_type = ''buy'' then
        Inr (ledger_file @ [\<lparr>e_type = transaction_type, e_date = date, e_stock = stock,
               e_shares = number_of_shares, e_price = price,
               e_cash = fneg (fadd (fmul (Fin (of_int number_of_shares)) price) (Fin fees))\<rparr>])
      else if transaction_type = ''sell'' then
        Inr (ledger_file @ [\<lparr>e_type = transaction_type, e_date = date, e_stock = stock,
               e_shares = number_of_shares, e_price = price,
               e_cash = fsub (fmul (Fin (of_int number_of_shares)) price) (Fin fees)\<rparr>])
      else Inl UnboundLocalError)"

definition buy ::
  "nat \<Rightarrow> nat \<Rightarrow> real \<Rightarrow> matrix \<Rightarrow> real \<Rightarrow> int list \<Rightarrow> ledger \<Rightarrow> error + (int list \<times> ledger)" where
  "buy date stock available_capital stock_prices fees portfolio ledger_file =
     (case mat_get stock_prices date stock of
        Inl e \<Rightarrow> Inl e
      | Inr price \<Rightarrow>
         (case py_int_div (round_double (available_capital - fees)) price of
            Inl e \<Rightarrow> Inl e
          | Inr number_of_shares \<Rightarrow>
              if stock < length portfolio then
                (case log_transaction ''buy'' date stock number_of_shares price fees ledger_file of
                   Inl e \<Rightarrow> Inl e
                 | Inr l \<Rightarrow> Inr (portfolio[stock := portfolio ! stock + number_of_shares], l))
              else Inl IndexError))"

definition sell ::
  "nat \<Rightarrow> nat \<Rightarrow> matrix \<Rightarrow> real \<Rightarrow> int list \<Rightarrow> ledger \<Rightarrow> error + (int list \<times> ledger)" where
  "sell date stock stock_prices fees portfolio ledger_file =
     (case mat_get stock_prices date stock of
        Inl e \<Rightarrow> Inl e
      | Inr price \<Rightarrow>
          if stock < length portfolio then
            (case log_transaction ''sell'' date stock (portfolio ! stock) price fees ledger_file of
               Inl e \<Rightarrow> Inl e
             | Inr l \<Rightarrow> Inr (portfolio[stock := 0], l))
          else Inl IndexError)"

definition create_portfolio ::
  "real list \<Rightarrow> matrix \<Rightarrow> real \<Rightarrow> ledger \<Rightarrow> error + (int list \<times> ledger)" where
  "create_portfolio available_amounts stock_prices fees ledger_file =
     for_loop [0..<shape1 stock_prices]
       (\<lambda>i (portfolio, l).
          case py_get available_amounts (int i) of
            Inl e \<Rightarrow> Inl e
          | Inr a \<Rightarrow> buy 0 i a stock_prices fees portfolio l)
       (replicate (shape1 stock_prices) 0, ledger_file)"

text \<open>Sequencing of two steps of which the first may raise.\<close>

fun bind_err :: "error + 'a \<Rightarrow> ('a \<Rightarrow> error + 'b) \<Rightarrow> error + 'b" where
  "bind_err (Inl e) f = Inl e"
| "bind_err (Inr x) f = f x"

fun map_err :: "('a \<Rightarrow> error + 'b) \<Rightarrow> 'a list \<Rightarrow> error + 'b list" where
  "map_err f [] = Inr []"
| "map_err f (x # xs) = bind_err (f x) (\<lambda>y. bind_err (map_err f xs) (\<lambda>ys. Inr (y # ys)))"

section \<open>indicators.py\<close>

text \<open>\<open>x / y\<close> for a finite divisor that the caller has checked to be non-zero.\<close>

fun fdiv_by :: "pyfloat \<Rightarrow> real \<Rightarrow> pyfloat" where
  "fdiv_by (Fin x) y = Fin (x / y)"
| "fdiv_by NaN y = NaN"

definition fsum :: "pyfloat list \<Rightarrow> pyfloat" where
  "fsum xs = foldr fadd xs (Fin 0)"

text \<open>\<open>np.average(a)\<close>: the mean of an empty slice is not-a-number (with a warning).\<close>

definition np_mean :: "pyfloat list \<Rightarrow> pyfloat" where
  "np_mean a = (if a = [] then NaN else fdiv_by (fsum a) (real (length a)))"

text \<open>\<open>np.average(a, weights=w)\<close>: the shapes must agree and the weights must not sum to
  zero.\<close>

definition np_average_weights :: "pyfloat list \<Rightarrow> real list \<Rightarrow> error + pyfloat" where
  "np_average_weights a weights =
     (if length a \<noteq> length weights then Inl TypeError
      else if sum_list weights = 0 then Inl ZeroDivisionError
      else Inr (fdiv_by (fsum (map2 fmul a (map Fin weights))) (sum_list weights)))"

fun fmax2 :: "pyfloat \<Rightarrow> pyfloat \<Rightarrow> pyfloat" where
  "fmax2 (Fin x) (Fin y) = Fin (max x y)"
| "fmax2 _ _ = NaN"

fun fmin2 :: "pyfloat \<Rightarrow> pyfloat \<Rightarrow> pyfloat" where
  "fmin2 (Fin x) (Fin y) = Fin (min x y)"
| "fmin2 _ _ = NaN"

text \<open>\<open>np.max\<close> and \<open>np.min\<close> propagate not-a-number and refuse an empty array.\<close>

fun np_max :: "pyfloat list \<Rightarrow> error + pyfloat" where
  "np_max [] = Inl ValueError"
| "np_max (x # xs) = Inr (foldl fmax2 x xs)"

fun np_min :: "pyfloat list \<Rightarrow> error + pyfloat" where
  "np_min [] = Inl ValueError"
| "np_min (x # xs) = Inr (foldl fmin2 x xs)"

text \<open>The loop \<open>for i in range(n-1, N)\<close> of \<open>moving_average\<close>, with its \<open>break\<close> at the
  first not-a-number at the current day. The source writes the loop twice, once for each way of
  averaging the window \<open>stock_price[i-n+1:i+1]\<close>; here the averaging is the argument
  \<open>avg\<close>.\<close>

function ma_loop ::
  "pyfloat list \<Rightarrow> int \<Rightarrow> (pyfloat list \<Rightarrow> error + pyfloat) \<Rightarrow> int \<Rightarrow> pyfloat list \<Rightarrow> error + pyfloat list" where
  "ma_loop stock_price n avg i ma =
     (if i < int (length stock_price) then
        bind_err (py_get stock_price i) (\<lambda>x.
          if \<not> isnan x then
            bind_err (avg (py_slice stock_price (i - n + 1) (i + 1))) (\<lambda>a.
              ma_loop stock_price n avg (i + 1) (ma @ [a]))
          else Inr ma)
      else Inr ma)"
  by pat_completeness auto
termination
  by (relation "measure (\<lambda>(stock_price, n, avg, i, ma). nat (int (length stock_price) - i))") auto

definition moving_average :: "pyfloat list \<Rightarrow> nat \<Rightarrow> real list \<Rightarrow> error + pyfloat list" where
  "moving_average stock_price n weights =
     (if weights = [] then ma_loop stock_price (int n) (\<lambda>a. Inr (np_mean a)) (int n - 1) []
      else ma_loop stock_price (int n) (\<lambda>a. np_average_weights a weights) (int n - 1) [])"

function stochastic_loop :: "pyfloat list \<Rightarrow> int \<Rightarrow> int \<Rightarrow> pyfloat list \<Rightarrow> error + pyfloat list" where
  "stochastic_loop stock_price n i osc =
     (if i < int (length stock_price) then
        bind_err (py_get stock_price i) (\<lambda>x.
          if \<not> isnan x then
            bind_err (np_max (py_slice stock_price (i - n + 1) (i + 1))) (\<lambda>highest_price.
            bind_err (np_min (py_slice stock_price (i - n + 1) (i + 1))) (\<lambda>lowest_price.
              case fsub highest_price lowest_price of
                NaN \<Rightarrow> stochastic_loop stock_price n (i + 1) (osc @ [NaN])
              | Fin delta_max \<Rightarrow>
                  if delta_max = 0 then stochastic_loop stock_price n (i + 1) (osc @ [NaN])
                  else stochastic_loop stock_price n (i + 1)
                         (osc @ [fdiv_by (fsub x lowest_price) delta_max])))
          else Inr osc)
      else Inr osc)"
  by pat_completeness auto
termination
  by (relation "measure (\<lambda>(stock_price, n, i, osc). nat (int (length stock_price) - i))") auto

text \<open>\<open>1 - 1 / (1 + RS)\<close> with \<open>RS\<close> the mean rise over the size of the mean fall; the two
  means are of non-empty arrays of finite numbers, strictly positive and strictly negative.\<close>

fun rsi_value :: "pyfloat \<Rightarrow> pyfloat \<Rightarrow> pyfloat" where
  "rsi_value (Fin postive_average) (Fin negative_average) =
     Fin (1 - 1 / (1 + postive_average / \<bar>negative_average\<bar>))"
| "rsi_value _ _ = NaN"

function rsi_loop :: "pyfloat list \<Rightarrow> int \<Rightarrow> int \<Rightarrow> pyfloat list \<Rightarrow> error + pyfloat list" where
  "rsi_loop stock_price n i osc =
     (if i < int (length stock_price) then
        bind_err (py_get stock_price i) (\<lambda>x.
          if \<not> isnan x then
            bind_err (map_err (\<lambda>j. bind_err (py_get stock_price ((i - n + 2) + j)) (\<lambda>a.
                                   bind_err (py_get stock_price ((i - n + 1) + j)) (\<lambda>b.
                                     Inr (fsub a b))))
                        (map int [0..<nat (n - 1)])) (\<lambda>differences.
              if filter (\<lambda>d. fgt d (Fin 0)) differences \<noteq> [] \<and> filter (\<lambda>d. flt d (Fin 0)) differences \<noteq> [] then
                rsi_loop stock_price n (i + 1)
                  (osc @ [rsi_value (np_mean (filter (\<lambda>d. fgt d (Fin 0)) differences))
                                    (np_mean (filter (\<lambda>d. flt d (Fin 0)) differences))])
              else if filter (\<lambda>d. fgt d (Fin 0)) differences = [] \<and> filter (\<lambda>d. flt d (Fin 0)) differences \<noteq> [] then
                rsi_loop stock_price n (i + 1) (osc @ [Fin 0])
              else if filter (\<lambda>d. fgt d (Fin 0)) differences \<noteq> [] \<and> filter (\<lambda>d. flt d (Fin 0)) differences = [] then
                rsi_loop stock_price n (i + 1) (osc @ [Fin 1])
              else rsi_loop stock_price n (i + 1) (osc @ [NaN]))
          else Inr osc)
      else Inr osc)"
  by pat_completeness auto
termination
  by (relation "measure (\<lambda>(stock_price, n, i, osc). nat (int (length stock_price) - i))") auto

definition oscillator :: "pyfloat list \<Rightarrow> nat \<Rightarrow> string \<Rightarrow> error + pyfloat list" where
  "oscillator stock_price n osc_type =
     (if osc_type = ''stochastic'' then stochastic_loop stock_price (int n) (int n - 1) []
      else if osc_type = ''RSI'' then rsi_loop stock_price (int n) (int n - 1) []
      else Inr [])"

section \<open>data.py: the price path generator\<close>

text \<open>
  The random draws are inputs of the model: \<open>incs day\<close> is the normal increment drawn on
  \<open>day\<close>, and \<open>draws day\<close> holds the three draws of the call of \<open>news\<close> on that day
  (whether there is news, the normal factor \<open>m\<close>, the duration). Nothing is assumed about
  them.
\<close>

definition news :: "bool \<times> real \<times> nat \<Rightarrow> real \<Rightarrow> real list" where
  "news draw volatility =
     (case draw of (news_today, m, duration) \<Rightarrow>
        if news_today then replicate duration (m * volatility) else [0])"

text \<open>\<open>xs[a:a+len(ys)] += ys\<close>, for a slice that lies inside \<open>xs\<close>.\<close>

definition slice_add :: "real list \<Rightarrow> nat \<Rightarrow> real list \<Rightarrow> real list" where
  "slice_add xs a ys =
     take a xs @ map2 (+) (take (length ys) (drop a xs)) ys @ drop (a + length ys) xs"

definition price_step ::
  "(nat \<Rightarrow> real) \<Rightarrow> (nat \<Rightarrow> bool \<times> real \<times> nat) \<Rightarrow> nat \<Rightarrow> real \<Rightarrow> nat
     \<Rightarrow> pyfloat list \<times> real list \<Rightarrow> error + pyfloat list \<times> real list" where
  "price_step incs draws days volatility day st =
     (case st of (stock_prices, totalDrift) \<Rightarrow>
        bind_err (py_get stock_prices (int day - 1)) (\<lambda>previous.
          let d = news (draws day) volatility;
              totalDrift' =
                (if day + length d > days then slice_add totalDrift day (drop (day + length d - days) d)
                 else slice_add totalDrift day d)
          in bind_err (py_get totalDrift' (int day)) (\<lambda>drift_today.
               let NewPriceToday = fadd (fadd previous (Fin (incs day))) (Fin drift_today)
               in if fle NewPriceToday (Fin 0) then Inr (stock_prices[day := NaN], totalDrift')
                  else Inr (stock_prices[day := NewPriceToday], totalDrift'))))"

definition generate_stock_price ::
  "(nat \<Rightarrow> real) \<Rightarrow> (nat \<Rightarrow> bool \<times> real \<times> nat) \<Rightarrow> nat \<Rightarrow> real \<Rightarrow> real \<Rightarrow> error + pyfloat list" where
  "generate_stock_price incs draws days initial_price volatility =
     (if days = 0 then Inl IndexError
      else bind_err
             (for_loop [1..<days] (price_step incs draws days volatility)
                ((replicate days (Fin 0))[0 := Fin initial_price], replicate days 0))
             (\<lambda>st. Inr (fst st)))"

section \<open>strategy.py: the three policies\<close>

text \<open>The policies accept a single column as well as a two-dimensional array.\<close>

datatype ndarray = Array1 "pyfloat list" | Array2 matrix

fun as_matrix :: "ndarray \<Rightarrow> matrix" where
  "as_matrix (Array1 xs) = \<lparr>shape0 = length xs, shape1 = 1, cell = (\<lambda>d s. xs ! d)\<rparr>"
| "as_matrix (Array2 a) = a"

text \<open>\<open>range(start, stop, step)\<close> with a step of zero raises.\<close>

definition py_range_step :: "nat \<Rightarrow> nat \<Rightarrow> nat \<Rightarrow> error + nat list" where
  "py_range_step start stop step =
     (if step = 0 then Inl ValueError
      else Inr (map (\<lambda>k. start + k * step) [0..<(stop - start + step - 1) div step]))"

text \<open>The last loop of each policy, the same text in all three: on the last day every stock
  that has a price and is held is sold.\<close>

definition final_sell :: "matrix \<Rightarrow> real \<Rightarrow> int list \<times> ledger \<Rightarrow> error + int list \<times> ledger" where
  "final_sell stock_prices fees st =
     for_loop [0..<shape1 stock_prices]
       (\<lambda>stock_number (portfolio, l).
          if shape0 stock_prices = 0 then Inl IndexError
          else bind_err (mat_get stock_prices (shape0 stock_prices - 1) stock_number) (\<lambda>p.
            if \<not> isnan p then
              bind_err (py_get portfolio (int stock_number)) (\<lambda>held.
                if held \<noteq> 0 then
                  sell (shape0 stock_prices - 1) stock_number stock_prices fees portfolio l
                else Inr (portfolio, l))
            else Inr (portfolio, l)))
       st"

text \<open>The Random policy; \<open>decision trade_day stock_number\<close> is the value that
  \<open>rng.choice([-1,0,1])\<close> returns in that iteration.\<close>

definition random_body ::
  "(nat \<Rightarrow> nat \<Rightarrow> int) \<Rightarrow> matrix \<Rightarrow> real \<Rightarrow> real \<Rightarrow> nat \<Rightarrow> nat
     \<Rightarrow> int list \<times> ledger \<Rightarrow> error + int list \<times> ledger" where
  "random_body decision stock_prices amount fees trade_day stock_number st =
     (case st of (portfolio, l) \<Rightarrow>
        if decision trade_day stock_number = 1 then
          bind_err (mat_get stock_prices trade_day stock_number) (\<lambda>p.
            if \<not> isnan p then buy trade_day stock_number amount stock_prices fees portfolio l
            else Inr (portfolio, l))
        else if decision trade_day stock_number = 0 then Inr (portfolio, l)
        else
          bind_err (mat_get stock_prices trade_day stock_number) (\<lambda>p.
            if \<not> isnan p then
              bind_err (py_get portfolio (int stock_number)) (\<lambda>held.
                if held \<noteq> 0 then sell trade_day stock_number stock_prices fees portfolio l
                else Inr (portfolio, l))
            else Inr (portfolio, l)))"

definition random ::
  "(nat \<Rightarrow> nat \<Rightarrow> int) \<Rightarrow> ndarray \<Rightarrow> nat \<Rightarrow> real \<Rightarrow> real \<Rightarrow> ledger \<Rightarrow> error + int list \<times> ledger" where
  "random decision stock_prices0 period amount fees ledger_file =
     (let stock_prices = as_matrix stock_prices0;
          N = shape1 stock_prices;
          days = shape0 stock_prices
      in bind_err (create_portfolio (replicate N amount) stock_prices fees ledger_file) (\<lambda>st.
         bind_err (py_range_step period days period) (\<lambda>trade_days.
         bind_err (for_loop trade_days
                     (\<lambda>trade_day. for_loop [0..<N]
                        (random_body decision stock_prices amount fees trade_day)) st) (\<lambda>st'.
         final_sell stock_prices fees st'))))"

text \<open>One comparison pair of the CrossingAverages policy, \<open>A and B\<close> evaluated from the
  left: the two values of the day before are read only if the comparison of the day holds.\<close>

definition crossing ::
  "(pyfloat \<Rightarrow> pyfloat \<Rightarrow> bool) \<Rightarrow> (pyfloat \<Rightarrow> pyfloat \<Rightarrow> bool) \<Rightarrow> pyfloat list \<Rightarrow> pyfloat list
     \<Rightarrow> nat \<Rightarrow> nat \<Rightarrow> nat \<Rightarrow> error + bool" where
  "crossing cmp_day cmp_prev fma sma trade_day m n =
     bind_err (py_get fma (int trade_day - int m)) (\<lambda>f0.
     bind_err (py_get sma (int trade_day - int n)) (\<lambda>s0.
       if cmp_day f0 s0 then
         bind_err (py_get fma (int trade_day - int m - 1)) (\<lambda>f1.
         bind_err (py_get sma (int trade_day - 1 - int n)) (\<lambda>s1. Inr (cmp_prev f1 s1)))
       else Inr False))"

definition crossing_body ::
  "pyfloat list list \<Rightarrow> pyfloat list list \<Rightarrow> matrix \<Rightarrow> nat \<Rightarrow> nat \<Rightarrow> real \<Rightarrow> real \<Rightarrow> nat \<Rightarrow> nat
     \<Rightarrow> int list \<times> ledger \<Rightarrow> error + int list \<times> ledger" where
  "crossing_body SMA FMA stock_prices m n amount fees trade_day stock_number st =
     (case st of (portfolio, l) \<Rightarrow>
        bind_err (py_get SMA (int stock_number)) (\<lambda>sma.
          if int trade_day - int n > int (length sma) - 1 then Inr (portfolio, l)
          else
            bind_err (py_get FMA (int stock_number)) (\<lambda>fma.
            bind_err (crossing fge flt fma sma trade_day m n) (\<lambda>from_below.
              if from_below then buy trade_day stock_number amount stock_prices fees portfolio l
              else
                bind_err (crossing fle fgt fma sma trade_day m n) (\<lambda>from_above.
                  if from_above then
                    bind_err (py_get portfolio (int stock_number)) (\<lambda>held.
                      if held \<noteq> 0 then sell trade_day stock_number stock_prices fees portfolio l
                      else Inr (portfolio, l))
                  else Inr (portfolio, l))))))"

definition crossing_averages ::
  "ndarray \<Rightarrow> nat \<Rightarrow> nat \<Rightarrow> real \<Rightarrow> real \<Rightarrow> ledger \<Rightarrow> error + int list \<times> ledger" where
  "crossing_averages stock_prices0 m n amount fees ledger_file =
     (let stock_prices = as_matrix stock_prices0;
          N = shape1 stock_prices;
          days = shape0 stock_prices
      in bind_err (create_portfolio (replicate N amount) stock_prices fees ledger_file) (\<lambda>st.
         bind_err (map_err (\<lambda>stock_number.
                      bind_err (moving_average (column stock_prices stock_number) n []) (\<lambda>slow.
                      bind_err (moving_average (column stock_prices stock_number) m []) (\<lambda>fast.
                        Inr (slow, fast))))
                    [0..<N]) (\<lambda>averages.
         bind_err (for_loop [n + 1..<days]
                     (\<lambda>trade_day. for_loop [0..<N]
                        (crossing_body (map fst averages) (map snd averages) stock_prices m n
                           amount fees trade_day)) st) (\<lambda>st'.
         final_sell stock_prices fees st'))))"

text \<open>The Momentum policy. Its state adds the list \<open>cool_off\<close> of day counters.\<close>

definition cool_off_tick :: "int \<Rightarrow> int list \<Rightarrow> int list" where
  "cool_off_tick cool_off_period cool_off =
     map (\<lambda>c. if c < cool_off_period then c + 1 else c) cool_off"

definition momentum_body ::
  "pyfloat list list \<Rightarrow> matrix \<Rightarrow> nat \<Rightarrow> real \<Rightarrow> real \<Rightarrow> real \<Rightarrow> real \<Rightarrow> int \<Rightarrow> nat \<Rightarrow> nat
     \<Rightarrow> (int list \<times> ledger) \<times> int list \<Rightarrow> error + (int list \<times> ledger) \<times> int list" where
  "momentum_body osc stock_prices k T_over T_under amount fees cool_off_period trade_day stock_number st =
     (case st of ((portfolio, l), cool_off) \<Rightarrow>
        bind_err (py_get osc (int stock_number)) (\<lambda>series.
          if int trade_day - int k > int (length series) - 1 then Inr ((portfolio, l), cool_off)
          else
            bind_err (py_get series (int trade_day - int k)) (\<lambda>level.
            bind_err (if fgt level (Fin T_over)
                      then bind_err (py_get portfolio (int stock_number)) (\<lambda>held. Inr (held \<noteq> 0))
                      else Inr False) (\<lambda>overvalued.
              if overvalued then
                bind_err (sell trade_day stock_number stock_prices fees portfolio l) (\<lambda>pl.
                  Inr (pl, cool_off))
              else
                bind_err (py_get series (int trade_day - int k)) (\<lambda>level'.
                bind_err (if flt level' (Fin T_under)
                          then bind_err (py_get cool_off (int stock_number)) (\<lambda>c. Inr (c = cool_off_period))
                          else Inr False) (\<lambda>undervalued.
                  if undervalued then
                    bind_err (buy trade_day stock_number amount stock_prices fees portfolio l) (\<lambda>pl.
                      Inr (pl, cool_off[stock_number := 0]))
                  else Inr ((portfolio, l), cool_off)))))))"

definition momentum_day ::
  "pyfloat list list \<Rightarrow> matrix \<Rightarrow> nat \<Rightarrow> real \<Rightarrow> real \<Rightarrow> real \<Rightarrow> real \<Rightarrow> int \<Rightarrow> nat
     \<Rightarrow> (int list \<times> ledger) \<times> int list \<Rightarrow> error + (int list \<times> ledger) \<times> int list" where
  "momentum_day osc stock_prices k T_over T_under amount fees cool_off_period trade_day st =
     for_loop [0..<shape1 stock_prices]
       (momentum_body osc stock_prices k T_over T_under amount fees cool_off_period trade_day)
       (fst st, cool_off_tick cool_off_period (snd st))"

definition momentum ::
  "ndarray \<Rightarrow> string \<Rightarrow> nat \<Rightarrow> real \<Rightarrow> real \<Rightarrow> real \<Rightarrow> real \<Rightarrow> int \<Rightarrow> ledger
     \<Rightarrow> error + int list \<times> ledger" where
  "momentum stock_prices0 osc_type n T_over T_under amount fees cool_off_period ledger_file =
     (let stock_prices = as_matrix stock_prices0;
          N = shape1 stock_prices;
          days = shape0 stock_prices;
          period_ave = 3
      in bind_err (create_portfolio (replicate N amount) stock_prices fees ledger_file) (\<lambda>st.
         bind_err (map_err (\<lambda>stock_number.
                      bind_err (oscillator (column stock_prices stock_number) n osc_type) (\<lambda>stock_osc.
                        moving_average stock_osc period_ave []))
                    [0..<N]) (\<lambda>osc.
         bind_err (for_loop [n + period_ave - 2..<days]
                     (momentum_day osc stock_prices (n + period_ave - 2) T_over T_under amount fees
                        cool_off_period)
                     (st, replicate N cool_off_period)) (\<lambda>st'.
         final_sell stock_prices fees (fst st')))))"

section \<open>Predicates of the properties\<close>

text \<open>Failure permanence of a price path: after a not-a-number every later entry is
  not-a-number. \<open>permanent_upto k\<close> is the same for the first \<open>k\<close> entries, and
  \<open>first_failure\<close> is the first day with not-a-number (the length when there is none).\<close>

definition permanent :: "pyfloat list \<Rightarrow> bool" where
  "permanent path \<longleftrightarrow> (\<forall>d d'. d < d' \<and> d' < length path \<and> isnan (path ! d) \<longrightarrow> isnan (path ! d'))"

definition first_failure :: "pyfloat list \<Rightarrow> nat" where
  "first_failure path = length (takeWhile (\<lambda>x. \<not> isnan x) path)"

definition permanent_upto :: "nat \<Rightarrow> pyfloat list \<Rightarrow> bool" where
  "permanent_upto k path \<longleftrightarrow> (\<forall>d d'. d < d' \<and> d' < k \<and> isnan (path ! d) \<longrightarrow> isnan (path ! d'))"

text \<open>The value that \<open>moving_average\<close> emits for one window.\<close>

definition averaged :: "real list \<Rightarrow> pyfloat list \<Rightarrow> pyfloat" where
  "averaged weights a =
     (if weights = [] then np_mean a
      else fdiv_by (fsum (map2 fmul a (map Fin weights))) (sum_list weights))"

text \<open>\<open>cooled c l\<close>: any two buy lines of \<open>l\<close> for the same stock are at least \<open>c\<close> days
  apart. \<open>cool_inv\<close> is the invariant of the Momentum loop that gives it: the ledger is the
  ledger \<open>l0\<close> of the initial portfolio followed by cooled lines, and the counter of a stock
  is at most the number of days since each of its purchases (\<open>b\<close> is the current day, or the
  day before when the counters have not yet been advanced).\<close>

definition cooled :: "int \<Rightarrow> ledger \<Rightarrow> bool" where
  "cooled c l \<longleftrightarrow>
     (\<forall>i j. i < j \<and> j < length l \<and> e_type (l ! i) = ''buy'' \<and> e_type (l ! j) = ''buy''
            \<and> e_stock (l ! i) = e_stock (l ! j)
        \<longrightarrow> c \<le> int (e_date (l ! j)) - int (e_date (l ! i)))"

definition cool_inv :: "int \<Rightarrow> int \<Rightarrow> ledger \<Rightarrow> ledger \<Rightarrow> int list \<Rightarrow> bool" where
  "cool_inv c b l0 l cool_off \<longleftrightarrow>
     (\<exists>l2. l = l0 @ l2 \<and> cooled c l2
          \<and> (\<forall>e\<in>set l2. e_type e = ''buy''
                \<longrightarrow> e_stock e < length cool_off \<and> int (e_date e) \<le> b
                  \<and> int (e_date e) + cool_off ! e_stock e \<le> b))"

section \<open>Example inputs\<close>

text \<open>Two stocks over four days; the second fails on the third day.\<close>

definition flush_prices :: ndarray where
  "flush_prices = Array2 (of_rows [[Fin 10, Fin 5], [Fin 9, Fin 4], [Fin 8, NaN], [Fin 7, NaN]])"

text \<open>One stock whose price falls every day, over nine days; then the same with a slower fall
  in the middle, and with one day on which the price does not move.\<close>

definition steady_fall :: ndarray where
  "steady_fall = Array1 [Fin 10, Fin 9, Fin 8, Fin 7, Fin 6, Fin 5, Fin 4, Fin 3, Fin 2]"

definition falling_prices :: ndarray where
  "falling_prices = Array1 [Fin 10, Fin 9, Fin 8, Fin 7, Fin (13 / 2), Fin 6, Fin 5, Fin 4, Fin 3]"

definition flat_day_prices :: ndarray where
  "flat_day_prices = Array1 [Fin 10, Fin 9, Fin 8, Fin 7, Fin 7, Fin 6, Fin 5, Fin 4, Fin 3]"

section \<open>Properties\<close>

subsection \<open>Loops\<close>

lemma bind_err_Inr_iff: "bind_err m f = Inr y \<longleftrightarrow> (\<exists>x. m = Inr x \<and> f x = Inr y)"
  by (cases m) auto

lemma for_loop_upt_total:
  assumes "a \<le> b" and "I a s"
    and "\<And>i t. a \<le> i \<Longrightarrow> i < b \<Longrightarrow> I i t \<Longrightarrow> \<exists>t'. body i t = Inr t' \<and> I (Suc i) t'"
  shows "\<exists>s'. for_loop [a..<b] body s = Inr s' \<and> I b s'"
  using assms
proof (induction "b - a" arbitrary: a s)
  case 0
  then show ?case by simp
next
  case (Suc k)
  then have lt: "a < b" by linarith
  from Suc.prems(3) [of a s] lt Suc.prems(2)
  obtain t where t: "body a s = Inr t" "I (Suc a) t" by auto
  have "\<exists>s'. for_loop [Suc a..<b] body t = Inr s' \<and> I b s'"
  proof (rule Suc.hyps(1))
    show "k = b - Suc a" using Suc.hyps(2) by linarith
    show "Suc a \<le> b" using lt by simp
    show "I (Suc a) t" by (rule t(2))
    show "\<And>i u. Suc a \<le> i \<Longrightarrow> i < b \<Longrightarrow> I i u \<Longrightarrow> \<exists>t'. body i u = Inr t' \<and> I (Suc i) t'"
      using Suc.prems(3) by simp
  qed
  then show ?case using lt t(1) by (simp add: upt_conv_Cons)
qed

lemma for_loop_upt_partial:
  assumes "a \<le> b" and "I a s"
    and "\<And>i t t'. a \<le> i \<Longrightarrow> i < b \<Longrightarrow> I i t \<Longrightarrow> body i t = Inr t' \<Longrightarrow> I (Suc i) t'"
    and "for_loop [a..<b] body s = Inr s'"
  shows "I b s'"
  using assms
proof (induction "b - a" arbitrary: a s)
  case 0
  then show ?case by simp
next
  case (Suc k)
  then have lt: "a < b" by linarith
  from Suc.prems(4) lt obtain t where t: "body a s = Inr t" "for_loop [Suc a..<b] body t = Inr s'"
    by (auto simp: upt_conv_Cons split: sum.splits)
  have It: "I (Suc a) t" using Suc.prems(3) [of a s t] lt Suc.prems(2) t(1) by simp
  show ?case
  proof (rule Suc.hyps(1) [of "Suc a" t])
    show "k = b - Suc a" using Suc.hyps(2) by linarith
    show "Suc a \<le> b" using lt by simp
    show "I (Suc a) t" by (rule It)
    show "\<And>i u u'. Suc a \<le> i \<Longrightarrow> i < b \<Longrightarrow> I i u \<Longrightarrow> body i u = Inr u' \<Longrightarrow> I (Suc i) u'"
      using Suc.prems(3) by simp
    show "for_loop [Suc a..<b] body t = Inr s'" by (rule t(2))
  qed
qed



subsection \<open>The ledger line format\<close>

text \<open>
  C9. \<open>log_transaction('buy', 5, 2, 10, 100, 50, ledger)\<close> appends exactly the line
  \<open>buy,5,2,10,100.00,-1050.00\<close>, and \<open>log_transaction('sell', 8, 1, 10, 100, 20, ledger)\<close>
  appends exactly the line \<open>sell,8,1,10,100.00,980.00\<close>: type, day, stock, shares, unit price
  and signed cash flow, separated by commas, the two amounts with two decimal digits.
\<close>

theorem log_transaction_example_lines:
  "map_sum id ledger_text (log_transaction ''buy'' 5 2 10 (Fin 100) 50 ledger_file)
     = Inr (ledger_text ledger_file @ [''buy,5,2,10,100.00,-1050.00''])
   \<and> map_sum id ledger_text (log_transaction ''sell'' 8 1 10 (Fin 100) 20 ledger_file)
     = Inr (ledger_text ledger_file @ [''sell,8,1,10,100.00,980.00''])"
  by (simp add: log_transaction_def ledger_text_def text_line_def str_int_def round_half_even_def)

subsection \<open>Rounding to a double\<close>

lemma pow2_pos: "0 < pow2 e"
  by (simp add: pow2_def)

lemma pow2_Suc: "pow2 (1 + e) = 2 * pow2 e"
proof (cases "0 \<le> e")
  case True
  then have "nat (1 + e) = Suc (nat e)" by simp
  then show ?thesis using True by (simp add: pow2_def)
next
  case False
  then have "nat (- e) = Suc (nat (- (1 + e)))" by simp
  then show ?thesis using False by (auto simp: pow2_def)
qed

lemma pow2_pred: "pow2 (e - 1) = pow2 e / 2"
  using pow2_Suc [of "e - 1"] by simp

lemma exp2_up_le: "1 \<le> x \<Longrightarrow> pow2 (exp2_up x) \<le> x"
proof (induction x rule: exp2_up.induct)
  case (1 x)
  show ?case
  proof (cases "x < 2")
    case True
    then have "exp2_up x = 0" by (subst exp2_up.simps) simp
    then show ?thesis using 1(2) by (simp add: pow2_def)
  next
    case False
    then have ih: "pow2 (exp2_up (x / 2)) \<le> x / 2" using 1 by simp
    have "exp2_up x = 1 + exp2_up (x / 2)" using False by (subst exp2_up.simps) simp
    then show ?thesis using ih by (simp only: pow2_Suc)
  qed
qed

lemma exp2_down_le: "0 < x \<Longrightarrow> x < 1 \<Longrightarrow> pow2 (exp2_down x) \<le> x"
proof (induction x rule: exp2_down.induct)
  case (1 x)
  have step: "exp2_down x = exp2_down (2 * x) - 1" using 1(2,3) by (subst exp2_down.simps) simp
  show ?case
  proof (cases "1 \<le> 2 * x")
    case True
    then have "exp2_down (2 * x) = 0" by (subst exp2_down.simps) simp
    then have "exp2_down x = - 1" using step by simp
    then show ?thesis using True by (simp add: pow2_def)
  next
    case False
    then have "pow2 (exp2_down (2 * x)) \<le> 2 * x" using 1 by simp
    then show ?thesis unfolding step by (simp only: pow2_pred)
  qed
qed

lemma round_half_even_le: "real_of_int (round_half_even r) \<le> r + 1 / 2"
  unfolding round_half_even_def by (auto; linarith)

lemma round_half_even_nonneg: "0 \<le> r \<Longrightarrow> 0 \<le> round_half_even r"
  unfolding round_half_even_def by (auto; linarith)

lemma round_double_nonneg: "0 \<le> x \<Longrightarrow> 0 \<le> round_double x"
  by (auto simp: round_double_def round_half_even_nonneg pow2_pos less_imp_le)

lemma pow2_add_nat: "pow2 (e + int k) = pow2 e * 2 ^ k"
proof (induction k)
  case 0
  then show ?case by simp
next
  case (Suc k)
  have "e + int (Suc k) = 1 + (e + int k)" by simp
  then have "pow2 (e + int (Suc k)) = 2 * pow2 (e + int k)" by (simp only: pow2_Suc)
  then show ?case by (simp add: Suc)
qed

lemma round_double_le:
  assumes "0 \<le> x"
  shows "round_double x \<le> x * (1 + 1 / 2 ^ 53)"
proof (cases "x = 0")
  case True
  then show ?thesis by (simp add: round_double_def)
next
  case False
  then have x: "0 < x" using assms by simp
  define e where "e = (if 1 \<le> x then exp2_up x else exp2_down x)"
  have e: "pow2 e \<le> x" using x exp2_up_le exp2_down_le unfolding e_def by auto
  define u where "u = pow2 (e - 52)"
  have u: "0 < u" unfolding u_def by (rule pow2_pos)
  have "e - 52 + int 52 = e" by simp
  then have "pow2 e = u * 2 ^ 52"
    using pow2_add_nat [of "e - 52" 52] unfolding u_def by (simp only:)
  then have "u * 2 ^ 52 \<le> x" using e by simp
  then have "u * 2 ^ 52 / 2 ^ 53 \<le> x / 2 ^ 53" by (rule divide_right_mono) simp
  moreover have "u * 2 ^ 52 / 2 ^ 53 = u / 2" by simp
  ultimately have half: "u / 2 \<le> x / 2 ^ 53" by (simp only:)
  have rd: "round_double x = real_of_int (round_half_even (x / u)) * u"
    using x by (simp add: round_double_def e_def u_def)
  have "real_of_int (round_half_even (x / u)) \<le> x / u + 1 / 2" by (rule round_half_even_le)
  then have "real_of_int (round_half_even (x / u)) * u \<le> (x / u + 1 / 2) * u"
    using u by (simp only: mult_le_cancel_right_pos)
  also have "(x / u + 1 / 2) * u = x + u / 2" using u by (simp add: distrib_right)
  also have "x + u / 2 \<le> x + x / 2 ^ 53" using half by (simp only: add_le_cancel_left)
  also have "x + x / 2 ^ 53 = x * (1 + 1 / 2 ^ 53)" by (simp only: distrib_left mult_1_right times_divide_eq_right)
  finally show ?thesis using rd by (simp only:)
qed

subsection \<open>Buying within the capital offered\<close>

lemma py_trunc_nonneg: "0 \<le> x \<Longrightarrow> py_trunc x = \<lfloor>x\<rfloor>"
  by (simp add: py_trunc_def)

lemma floor_quotient_times:
  fixes a p :: real
  assumes "0 < p"
  shows "real_of_int \<lfloor>a / p\<rfloor> * p \<le> a"
proof -
  have "real_of_int \<lfloor>a / p\<rfloor> \<le> a / p" by (rule of_int_floor_le)
  then show ?thesis using assms by (simp only: pos_le_divide_eq)
qed

text \<open>
  C2, as the code has it. For a call of \<open>buy\<close> with a price above zero and a capital that
  covers the fees, let \<open>q\<close> be the quotient the code computes: the double nearest to the
  double difference capital minus fees divided by the price. The code buys \<open>floor(q)\<close>
  shares, a number that is not negative, and shares times price is at most
  \<open>(capital - fees) * (1 + 2^-53)^2\<close>: the purchase can exceed the capital only by the
  rounding of the difference and of the quotient. When neither is rounded, the shares are
  \<open>floor((capital - fees) / price)\<close> and shares times price plus fees is at most the capital.
\<close>

theorem buy_capital_constraint:
  assumes "mat_get stock_prices date stock = Inr (Fin p)"
    and "0 < p"
    and "fees \<le> available_capital"
    and "stock < length portfolio"
  shows "map_sum id fst (buy date stock available_capital stock_prices fees portfolio ledger_file)
           = Inr (portfolio[stock := portfolio ! stock
                    + \<lfloor>round_double (round_double (available_capital - fees) / p)\<rfloor>])
         \<and> map_sum id (\<lambda>r. map e_shares (snd r))
               (buy date stock available_capital stock_prices fees portfolio ledger_file)
           = Inr (map e_shares ledger_file
                    @ [\<lfloor>round_double (round_double (available_capital - fees) / p)\<rfloor>])
         \<and> 0 \<le> \<lfloor>round_double (round_double (available_capital - fees) / p)\<rfloor>
         \<and> real_of_int \<lfloor>round_double (round_double (available_capital - fees) / p)\<rfloor> * p
              \<le> (available_capital - fees) * (1 + 1 / 2 ^ 53) * (1 + 1 / 2 ^ 53)
         \<and> (round_double (available_capital - fees) = available_capital - fees
              \<and> round_double ((available_capital - fees) / p) = (available_capital - fees) / p
            \<longrightarrow> \<lfloor>round_double (round_double (available_capital - fees) / p)\<rfloor>
                  = \<lfloor>(available_capital - fees) / p\<rfloor>
                \<and> real_of_int \<lfloor>round_double (round_double (available_capital - fees) / p)\<rfloor> * p + fees
                  \<le> available_capital)"
proof -
  define a where "a = round_double (available_capital - fees)"
  define q where "q = round_double (a / p)"
  define eps :: real where "eps = 1 + 1 / 2 ^ 53"
  have eps: "0 \<le> eps" by (simp add: eps_def)
  have d0: "0 \<le> available_capital - fees" using assms(3) by simp
  have a0: "0 \<le> a" unfolding a_def using d0 by (rule round_double_nonneg)
  have a1: "a \<le> (available_capital - fees) * eps"
    unfolding a_def eps_def using d0 by (rule round_double_le)
  have r0: "0 \<le> a / p" using a0 assms(2) by simp
  have q0: "0 \<le> q" unfolding q_def using r0 by (rule round_double_nonneg)
  have q1: "q \<le> a / p * eps" unfolding q_def eps_def using r0 by (rule round_double_le)
  have shares0: "0 \<le> \<lfloor>q\<rfloor>" using q0 by simp
  have "real_of_int \<lfloor>q\<rfloor> \<le> q" by (rule of_int_floor_le)
  then have "real_of_int \<lfloor>q\<rfloor> \<le> a / p * eps" using q1 by (rule order_trans)
  then have "real_of_int \<lfloor>q\<rfloor> * p \<le> a / p * eps * p"
    using assms(2) by (simp only: mult_le_cancel_right_pos)
  also have "a / p * eps * p = a * eps" using assms(2) by simp
  also have "a * eps \<le> (available_capital - fees) * eps * eps"
    using a1 eps by (rule mult_right_mono)
  finally have bound: "real_of_int \<lfloor>q\<rfloor> * p \<le> (available_capital - fees) * eps * eps" .
  have exact: "a = available_capital - fees \<and> round_double ((available_capital - fees) / p) = (available_capital - fees) / p
         \<longrightarrow> \<lfloor>q\<rfloor> = \<lfloor>(available_capital - fees) / p\<rfloor>
            \<and> real_of_int \<lfloor>q\<rfloor> * p + fees \<le> available_capital"
  proof
    assume h: "a = available_capital - fees \<and> round_double ((available_capital - fees) / p) = (available_capital - fees) / p"
    then have qe: "q = (available_capital - fees) / p" unfolding q_def by simp
    have "real_of_int \<lfloor>(available_capital - fees) / p\<rfloor> * p \<le> available_capital - fees"
      using assms(2) by (rule floor_quotient_times)
    then show "\<lfloor>q\<rfloor> = \<lfloor>(available_capital - fees) / p\<rfloor>
            \<and> real_of_int \<lfloor>q\<rfloor> * p + fees \<le> available_capital"
      unfolding qe by simp
  qed
  have "py_int_div a (Fin p) = Inr \<lfloor>q\<rfloor>"
    using assms(2) q0 by (simp add: py_int_div_def py_trunc_nonneg q_def)
  then have run: "buy date stock available_capital stock_prices fees portfolio ledger_file
           = Inr (portfolio[stock := portfolio ! stock + \<lfloor>q\<rfloor>],
                  ledger_file @ [\<lparr>e_type = ''buy'', e_date = date, e_stock = stock,
                     e_shares = \<lfloor>q\<rfloor>, e_price = Fin p,
                     e_cash = fneg (fadd (fmul (Fin (real_of_int \<lfloor>q\<rfloor>)) (Fin p)) (Fin fees))\<rparr>])"
    using assms(1,4) by (simp add: buy_def log_transaction_def a_def)
  have r1: "map_sum id fst (buy date stock available_capital stock_prices fees portfolio ledger_file)
           = Inr (portfolio[stock := portfolio ! stock + \<lfloor>q\<rfloor>])"
    unfolding run by simp
  have r2: "map_sum id (\<lambda>r. map e_shares (snd r))
               (buy date stock available_capital stock_prices fees portfolio ledger_file)
           = Inr (map e_shares ledger_file @ [\<lfloor>q\<rfloor>])"
    unfolding run by simp
  show ?thesis
    using r1 r2 shares0 bound exact unfolding q_def a_def eps_def by blast
qed

theorem buy_capital_constraint_witness:
  "map_sum id fst (buy 21 0 1000 \<lparr>shape0 = 22, shape1 = 1, cell = (\<lambda>d s. Fin 8)\<rparr> 30 [5] [])
     = Inr [126]
   \<and> map_sum id (\<lambda>r. map e_shares (snd r))
        (buy 21 0 1000 \<lparr>shape0 = 22, shape1 = 1, cell = (\<lambda>d s. Fin 8)\<rparr> 30 [5] [])
     = Inr [121]
   \<and> (121 :: int) = \<lfloor>(1000 - 30) / (8 :: real)\<rfloor>
   \<and> real_of_int 121 * 8 + 30 \<le> (1000 :: real)"
proof -
  have h1: "mat_get \<lparr>shape0 = 22, shape1 = 1, cell = (\<lambda>d s. Fin 8)\<rparr> 21 0 = Inr (Fin 8)"
    by (simp add: mat_get_def)
  have h2: "(0::real) < 8" by simp
  have h3: "(30::real) \<le> 1000" by simp
  have h4: "(0::nat) < length [5::int]" by simp
  have r1: "round_double (1000 - 30) = 1000 - 30" by code_simp
  have r2: "round_double ((1000 - 30) / 8) = (1000 - 30) / 8" by code_simp
  have f: "\<lfloor>(1000 - 30) / (8 :: real)\<rfloor> = 121" by simp
  note t = buy_capital_constraint [OF h1 h2 h3 h4, of "[]"]
  from t r1 r2 have s: "\<lfloor>round_double (round_double (1000 - 30) / 8)\<rfloor> = \<lfloor>(1000 - 30) / (8 :: real)\<rfloor>"
    by blast
  show ?thesis using t unfolding s f by simp
qed

text \<open>Two calls that break the claim as it is written. With a capital of 10, fees of 20 and a
  price of 3 the code buys \<open>-3\<close> shares: not the floor of \<open>-10/3\<close>, and \<open>-3 * 3 + 20\<close>
  exceeds 10. With a capital of 5000, fees of 20 and the price that Python reads from \<open>8.3\<close>
  the quotient is rounded up to 600: the code buys 600 shares, one more than the floor, and
  600 times the price plus 20 exceeds 5000.\<close>

theorem buy_capital_constraint_counterexample:
  "buy 0 0 10 (of_rows [[Fin 3]]) 20 [0] []
     = Inr ([- 3], [\<lparr>e_type = ''buy'', e_date = 0, e_stock = 0, e_shares = - 3, e_price = Fin 3,
                      e_cash = Fin (- 11)\<rparr>])
   \<and> (- 3 :: int) \<noteq> \<lfloor>(10 - 20) / (3 :: real)\<rfloor>
   \<and> \<not> (real_of_int (- 3) * 3 + 20 \<le> (10 :: real))
   \<and> map_sum id fst (buy 0 0 5000 (of_rows [[Fin (round_double (83 / 10))]]) 20 [0] []) = Inr [600]
   \<and> (600 :: int) \<noteq> \<lfloor>(5000 - 20) / round_double (83 / 10)\<rfloor>
   \<and> \<not> (real_of_int 600 * round_double (83 / 10) + 20 \<le> 5000)"
  by code_simp

subsection \<open>Cash flow of a ledger entry\<close>

text \<open>
  C4, as the code has it. A sale is legal on any position, also an empty one, and records the
  shares held (none for an empty position) with the cash flow shares times price minus fees,
  which is above zero exactly when the proceeds exceed the fees; every purchase that returns
  records one entry whose cash flow is minus (shares times price plus fees), which is below
  zero exactly when shares times price plus fees is above zero.
\<close>

theorem sell_buy_cash_flow:
  assumes "mat_get stock_prices date stock = Inr (Fin p)"
    and "stock < length portfolio"
  shows "sell date stock stock_prices fees portfolio ledger_file
           = Inr (portfolio[stock := 0],
                  ledger_file @ [\<lparr>e_type = ''sell'', e_date = date, e_stock = stock,
                     e_shares = portfolio ! stock, e_price = Fin p,
                     e_cash = Fin (real_of_int (portfolio ! stock) * p - fees)\<rparr>])
         \<and> (fgt (Fin (real_of_int (portfolio ! stock) * p - fees)) (Fin 0)
              \<longleftrightarrow> fees < real_of_int (portfolio ! stock) * p)
         \<and> (\<forall>portfolio' l'.
              buy date stock available_capital stock_prices fees portfolio ledger_file = Inr (portfolio', l')
              \<longrightarrow> (\<exists>shares. portfolio' = portfolio[stock := portfolio ! stock + shares]
                     \<and> l' = ledger_file @ [\<lparr>e_type = ''buy'', e_date = date, e_stock = stock,
                           e_shares = shares, e_price = Fin p,
                           e_cash = Fin (- (real_of_int shares * p + fees))\<rparr>]
                     \<and> (flt (Fin (- (real_of_int shares * p + fees))) (Fin 0)
                          \<longleftrightarrow> 0 < real_of_int shares * p + fees)))"
  using assms
  by (auto simp: sell_def buy_def log_transaction_def py_int_div_def split: if_splits)

theorem sell_buy_cash_flow_witness:
  "sell 8 0 \<lparr>shape0 = 9, shape1 = 1, cell = (\<lambda>d s. Fin 100)\<rparr> 20 [10] []
     = Inr ([0], [\<lparr>e_type = ''sell'', e_date = 8, e_stock = 0, e_shares = 10, e_price = Fin 100,
                    e_cash = Fin 980\<rparr>])"
proof -
  have h1: "mat_get \<lparr>shape0 = 9, shape1 = 1, cell = (\<lambda>d s. Fin 100)\<rparr> 8 0 = Inr (Fin 100)"
    by (simp add: mat_get_def)
  have h2: "(0::nat) < length [10::int]" by simp
  show ?thesis
    using sell_buy_cash_flow [OF h1 h2, of 20 "[]" 0] by simp
qed

text \<open>The sale of an empty position at a price of 100 with fees of 20 records a cash flow of
  \<open>-20\<close>, which is not above zero.\<close>

theorem sell_cash_flow_counterexample:
  "sell 8 0 \<lparr>shape0 = 9, shape1 = 1, cell = (\<lambda>d s. Fin 100)\<rparr> 20 [0] []
     = Inr ([0], [\<lparr>e_type = ''sell'', e_date = 8, e_stock = 0, e_shares = 0, e_price = Fin 100,
                    e_cash = Fin (- 20)\<rparr>])
   \<and> \<not> fgt (Fin (- 20)) (Fin 0)"
  by (simp add: sell_def mat_get_def log_transaction_def)

subsection \<open>Failure permanence of a generated price path\<close>

lemma length_slice_add: "a + length ys \<le> length xs \<Longrightarrow> length (slice_add xs a ys) = length xs"
  by (simp add: slice_add_def)

lemma isnan_fadd_left: "isnan x \<Longrightarrow> isnan (fadd x y)"
  by (cases x; cases y) auto

lemma not_fle_nan: "isnan x \<Longrightarrow> \<not> fle x y"
  by (cases x; cases y) auto

lemma price_step_inv:
  assumes "1 \<le> day" "day < days" "length sp = days" "length td = days" "permanent_upto day sp"
  shows "\<exists>sp' td'. price_step incs draws days volatility day (sp, td) = Inr (sp', td')
           \<and> length sp' = days \<and> length td' = days \<and> permanent_upto (Suc day) sp'"
proof -
  define d where "d = news (draws day) volatility"
  define td' where "td' = (if day + length d > days then slice_add td day (drop (day + length d - days) d)
                 else slice_add td day d)"
  have ltd: "length td' = days"
    using assms by (auto simp: td'_def length_slice_add)
  have g1: "py_get sp (int day - 1) = Inr (sp ! (day - 1))"
    using assms by (simp add: py_get_def nat_diff_distrib')
  have g2: "py_get td' (int day) = Inr (td' ! day)"
    using assms ltd by (simp add: py_get_def)
  define new where "new = fadd (fadd (sp ! (day - 1)) (Fin (incs day))) (Fin (td' ! day))"
  define v where "v = (if fle new (Fin 0) then NaN else new)"
  have res: "price_step incs draws days volatility day (sp, td) = Inr (sp[day := v], td')"
    using g1 g2 by (simp add: price_step_def d_def [symmetric] td'_def [symmetric] Let_def new_def v_def)
  have vnan: "isnan (sp ! (day - 1)) \<Longrightarrow> isnan v"
    by (auto simp: v_def new_def isnan_fadd_left not_fle_nan)
  have "permanent_upto (Suc day) (sp[day := v])"
    unfolding permanent_upto_def
  proof (intro allI impI)
    fix a b assume h: "a < b \<and> b < Suc day \<and> isnan (sp[day := v] ! a)"
    then have "a \<noteq> day" by linarith
    with h have a: "isnan (sp ! a)" by simp
    show "isnan (sp[day := v] ! b)"
    proof (cases "b = day")
      case True
      have "isnan (sp ! (day - 1))"
      proof (cases "a = day - 1")
        case True then show ?thesis using a by simp
      next
        case False
        then have "a < day - 1 \<and> day - 1 < day" using h True assms(1) by linarith
        then show ?thesis using assms(5) a unfolding permanent_upto_def by blast
      qed
      then show ?thesis using True vnan assms by simp
    next
      case False
      then have "b < day" using h by linarith
      then have "isnan (sp ! b)" using assms(5) a h unfolding permanent_upto_def by blast
      then show ?thesis using False by simp
    qed
  qed
  then show ?thesis using res ltd assms by simp
qed

text \<open>
  C1. For every day count of at least one and every outcome of the random draws,
  \<open>generate_stock_price\<close> returns a path of that many days in which a not-a-number at day
  \<open>d\<close> is followed by not-a-number at every later day: the sum with not-a-number is
  not-a-number, and the test \<open>NewPriceToday <= 0\<close> is false for it, so it is stored again.
\<close>

theorem generate_stock_price_failure_permanent:
  assumes "1 \<le> days"
  shows "\<exists>path. generate_stock_price incs draws days initial_price volatility = Inr path
           \<and> length path = days
           \<and> (\<forall>d d'. d < d' \<and> d' < days \<and> isnan (path ! d) \<longrightarrow> isnan (path ! d'))"
proof -
  let ?I = "\<lambda>k (st :: pyfloat list \<times> real list). length (fst st) = days \<and> length (snd st) = days \<and> permanent_upto k (fst st)"
  let ?s0 = "((replicate days (Fin 0))[0 := Fin initial_price], replicate days (0::real))"
  have "\<exists>s'. for_loop [1..<days] (price_step incs draws days volatility) ?s0 = Inr s' \<and> ?I days s'"
  proof (rule for_loop_upt_total [where I = ?I])
    show "1 \<le> days" by (rule assms)
    show "?I 1 ?s0" by (simp add: permanent_upto_def)
    fix i t assume "1 \<le> i" "i < days" "?I i t"
    then show "\<exists>t'. price_step incs draws days volatility i t = Inr t' \<and> ?I (Suc i) t'"
      using price_step_inv [of i days "fst t" "snd t" incs draws volatility] by auto
  qed
  then obtain s' where s': "for_loop [1..<days] (price_step incs draws days volatility) ?s0 = Inr s'"
    "?I days s'" by blast
  have "generate_stock_price incs draws days initial_price volatility = Inr (fst s')"
    using assms s'(1) by (simp add: generate_stock_price_def)
  moreover have "length (fst s') = days" using s'(2) by simp
  moreover have "\<forall>d d'. d < d' \<and> d' < days \<and> isnan (fst s' ! d) \<longrightarrow> isnan (fst s' ! d')"
    using s'(2) unfolding permanent_upto_def by blast
  ultimately show ?thesis by blast
qed

theorem generate_stock_price_failure_permanent_witness:
  "generate_stock_price (\<lambda>d. if d < 3 then - 1 else 5) (\<lambda>d. (d = 2, - 1, 9)) 6 3 1
     = Inr [Fin 3, Fin 2, NaN, NaN, NaN, NaN]
   \<and> isnan ([Fin 3, Fin 2, NaN, NaN, NaN, NaN] ! 2)
   \<and> isnan ([Fin 3, Fin 2, NaN, NaN, NaN, NaN] ! 5)"
proof -
  have h: "(1::nat) \<le> 6" by simp
  have e: "generate_stock_price (\<lambda>d. if d < 3 then - 1 else 5) (\<lambda>d. (d = 2, - 1, 9)) 6 3 1
     = Inr [Fin 3, Fin 2, NaN, NaN, NaN, NaN]"
    by code_simp
  from generate_stock_price_failure_permanent [OF h, of "\<lambda>d. if d < 3 then - 1 else 5" "\<lambda>d. (d = 2, - 1, 9)" 3 1]
  obtain path where p: "generate_stock_price (\<lambda>d. if d < 3 then - 1 else 5) (\<lambda>d. (d = 2, - 1, 9)) 6 3 1 = Inr path"
    "\<forall>d d'. d < d' \<and> d' < 6 \<and> isnan (path ! d) \<longrightarrow> isnan (path ! d')" by blast
  from p(1) e have path: "path = [Fin 3, Fin 2, NaN, NaN, NaN, NaN]" by simp
  have first: "isnan (path ! 2)" unfolding path by simp
  have "(2::nat) < 5 \<and> (5::nat) < 6 \<and> isnan (path ! 2) \<longrightarrow> isnan (path ! 5)"
    using p(2) by blast
  then have "isnan (path ! 5)" using first by simp
  then show ?thesis using e first unfolding path by blast
qed

subsection \<open>The moving average of a price path\<close>

declare ma_loop.simps [simp del]

lemma first_failure_le: "first_failure sp \<le> length sp"
  by (simp add: first_failure_def length_takeWhile_le)

lemma first_failure_before: "j < first_failure sp \<Longrightarrow> \<not> isnan (sp ! j)"
  unfolding first_failure_def
  using nth_mem [of j "takeWhile (\<lambda>x. \<not> isnan x) sp"] set_takeWhileD [of "sp ! j" "\<lambda>x. \<not> isnan x" sp]
  by (simp add: takeWhile_nth)

lemma first_failure_at: "first_failure sp < length sp \<Longrightarrow> isnan (sp ! first_failure sp)"
  unfolding first_failure_def
  using nth_length_takeWhile [of "\<lambda>x. \<not> isnan x" sp] by simp

lemma first_failure_unique:
  assumes "f < length sp" "isnan (sp ! f)" "\<forall>d<f. \<not> isnan (sp ! d)"
  shows "first_failure sp = f"
proof -
  have "\<not> f < first_failure sp" using assms(2) first_failure_before by blast
  moreover have "\<not> first_failure sp < f"
  proof
    assume a: "first_failure sp < f"
    then have "first_failure sp < length sp" using assms(1) by simp
    then have "isnan (sp ! first_failure sp)" by (rule first_failure_at)
    then show False using assms(3) a by blast
  qed
  ultimately show ?thesis by simp
qed

lemma first_failure_none: "(\<forall>x\<in>set sp. \<not> isnan x) \<Longrightarrow> first_failure sp = length sp"
proof -
  assume "\<forall>x\<in>set sp. \<not> isnan x"
  then have "takeWhile (\<lambda>x. \<not> isnan x) sp = sp" by (simp only: takeWhile_eq_all_conv)
  then show ?thesis by (simp only: first_failure_def)
qed

lemma permanent_after:
  assumes "permanent sp" "first_failure sp \<le> j" "j < length sp"
  shows "isnan (sp ! j)"
proof (cases "first_failure sp = j")
  case True
  then show ?thesis using first_failure_at [of sp] assms(3) by simp
next
  case False
  then have lt: "first_failure sp < j" using assms(2) by simp
  then have "isnan (sp ! first_failure sp)" using first_failure_at [of sp] assms(3) by simp
  then show ?thesis using assms(1,3) lt unfolding permanent_def by blast
qed

lemma py_slice_window:
  assumes "n \<le> Suc j" "j < length sp"
  shows "py_slice sp (int j - int n + 1) (int j + 1) = take n (drop (Suc j - n) sp)"
proof -
  have a: "py_bound (length sp) (int j - int n + 1) = Suc j - n"
    using assms by (simp add: py_bound_def nat_diff_distrib' nat_add_distrib) 
  have b: "py_bound (length sp) (int j + 1) = Suc j"
    using assms by (simp add: py_bound_def nat_add_distrib)
  show ?thesis using assms by (simp add: py_slice_def a b)
qed

lemma ma_loop_run:
  assumes "n \<le> Suc i" "i \<le> f" "f \<le> length sp"
    and "\<forall>j. i \<le> j \<and> j < f \<longrightarrow> \<not> isnan (sp ! j)"
    and "f = length sp \<or> isnan (sp ! f)"
    and "\<forall>j. i \<le> j \<and> j < f \<longrightarrow> avg (take n (drop (Suc j - n) sp)) = Inr (g j)"
  shows "ma_loop sp (int n) avg (int i) ma = Inr (ma @ map g [i..<f])"
  using assms
proof (induction "f - i" arbitrary: i ma)
  case 0
  then have "i = f" by simp
  then show ?case using 0
    by (subst ma_loop.simps) (auto simp: py_get_def)
next
  case (Suc k)
  then have lt: "i < f" by linarith
  then have ok: "\<not> isnan (sp ! i)" "i < length sp" "avg (take n (drop (Suc i - n) sp)) = Inr (g i)"
    using Suc.prems by auto
  have step: "ma_loop sp (int n) avg (int i) ma = ma_loop sp (int n) avg (int (Suc i)) (ma @ [g i])"
    using ok Suc.prems(1) py_slice_window [of n i sp]
    by (subst ma_loop.simps) (simp add: py_get_def add.commute)
  have "ma_loop sp (int n) avg (int (Suc i)) (ma @ [g i]) = Inr ((ma @ [g i]) @ map g [Suc i..<f])"
  proof (rule Suc.hyps(1))
    show "k = f - Suc i" using Suc.hyps(2) by linarith
    show "n \<le> Suc (Suc i)" using Suc.prems(1) by simp
    show "Suc i \<le> f" using lt by simp
    show "f \<le> length sp" by (rule Suc.prems(3))
    show "\<forall>j. Suc i \<le> j \<and> j < f \<longrightarrow> \<not> isnan (sp ! j)" using Suc.prems(4) by simp
    show "f = length sp \<or> isnan (sp ! f)" by (rule Suc.prems(5))
    show "\<forall>j. Suc i \<le> j \<and> j < f \<longrightarrow> avg (take n (drop (Suc j - n) sp)) = Inr (g j)"
      using Suc.prems(6) by simp
  qed
  then show ?case using step lt by (simp add: upt_conv_Cons)
qed

lemma ma_loop_past_end: "int (length sp) \<le> i \<Longrightarrow> ma_loop sp n avg i ma = Inr ma"
  by (subst ma_loop.simps) simp

lemma fsum_finite: "\<forall>x\<in>set xs. \<not> isnan x \<Longrightarrow> \<not> isnan (fsum xs)"
proof (induction xs)
  case Nil
  then show ?case by (simp add: fsum_def)
next
  case (Cons x xs)
  then have "\<not> isnan (foldr fadd xs (Fin 0))" by (simp add: fsum_def)
  moreover have "\<not> isnan x" using Cons.prems by simp
  ultimately show ?case
    by (cases x; cases "foldr fadd xs (Fin 0)") (simp_all add: fsum_def)
qed

lemma np_mean_finite: "xs \<noteq> [] \<Longrightarrow> \<forall>x\<in>set xs. \<not> isnan x \<Longrightarrow> \<not> isnan (np_mean xs)"
  using fsum_finite [of xs] by (cases "fsum xs") (simp_all add: np_mean_def)

lemma window_elements:
  assumes "1 \<le> n" "n \<le> Suc j" "j < first_failure sp"
  shows "length (take n (drop (Suc j - n) sp)) = n \<and> (\<forall>x\<in>set (take n (drop (Suc j - n) sp)). \<not> isnan x)"
proof
  have "j < length sp" using assms(3) first_failure_le [of sp] by simp
  then show "length (take n (drop (Suc j - n) sp)) = n" using assms by simp
  show "\<forall>x\<in>set (take n (drop (Suc j - n) sp)). \<not> isnan x"
  proof
    fix x assume "x \<in> set (take n (drop (Suc j - n) sp))"
    then obtain k where k: "k < length (take n (drop (Suc j - n) sp))"
      "x = take n (drop (Suc j - n) sp) ! k" by (auto simp: in_set_conv_nth)
    then have "k < n" "Suc j - n + k < length sp" by auto
    then have "x = sp ! (Suc j - n + k)" using k by simp
    moreover have "Suc j - n + k < first_failure sp" using \<open>k < n\<close> assms by linarith
    ultimately show "\<not> isnan x" using first_failure_before by simp
  qed
qed

lemma isnan_map2_fmul:
  "\<forall>x\<in>set a. \<not> isnan x \<Longrightarrow> \<forall>x\<in>set (map2 fmul a (map Fin w)). \<not> isnan x"
proof (induction a arbitrary: w)
  case Nil
  then show ?case by simp
next
  case (Cons x a)
  show ?case
  proof (cases w)
    case Nil
    then show ?thesis by simp
  next
    case (Cons y w')
    have "\<not> isnan (fmul x (Fin y))" using Cons.prems by (cases x) simp_all
    then show ?thesis using Cons.IH [of w'] Cons.prems Cons by simp
  qed
qed

lemma averaged_finite:
  assumes "a \<noteq> []" "\<forall>x\<in>set a. \<not> isnan x"
  shows "\<not> isnan (averaged weights a)"
proof (cases "weights = []")
  case True
  then show ?thesis using np_mean_finite [OF assms] by (simp add: averaged_def)
next
  case False
  have "\<not> isnan (fsum (map2 fmul a (map Fin weights)))"
    using isnan_map2_fmul [OF assms(2)] by (rule fsum_finite)
  then show ?thesis using False
    by (cases "fsum (map2 fmul a (map Fin weights))") (simp_all add: averaged_def)
qed

lemma moving_average_permanent:
  assumes "1 \<le> n" "permanent sp"
    and "weights = [] \<or> (length weights = n \<and> sum_list weights \<noteq> 0)"
  shows "\<exists>ma. moving_average sp n weights = Inr ma
           \<and> int (length ma) = max 0 (int (first_failure sp) - int n + 1)
           \<and> (\<forall>x\<in>set ma. \<not> isnan x)"
proof -
  let ?avg = "if weights = [] then (\<lambda>a. Inr (np_mean a)) else (\<lambda>a. np_average_weights a weights)"
  have start: "int n - 1 = int (n - 1)" using assms(1) by simp
  have ma: "moving_average sp n weights = ma_loop sp (int n) ?avg (int (n - 1)) []"
    by (simp add: moving_average_def start)
  consider (short) "length sp \<le> n - 1"
    | (failed) "n - 1 < length sp" "first_failure sp \<le> n - 1"
    | (run) "n - 1 < length sp" "n - 1 < first_failure sp" by linarith
  then show ?thesis
  proof cases
    case short
    then have "moving_average sp n weights = Inr []"
      unfolding ma by (simp add: ma_loop_past_end)
    moreover have "int (first_failure sp) - int n + 1 \<le> 0"
      using short first_failure_le [of sp] assms(1) by linarith
    ultimately show ?thesis by simp
  next
    case failed
    have nan: "isnan (sp ! (n - 1))" using permanent_after [OF assms(2) failed(2) failed(1)] .
    have "ma_loop sp (int n) ?avg (int (n - 1)) [] = Inr ([] @ map (\<lambda>j. NaN) [n - 1..<n - 1])"
      by (rule ma_loop_run) (use assms(1) failed nan in auto)
    then have "moving_average sp n weights = Inr []"
      unfolding ma by simp
    moreover have "int (first_failure sp) - int n + 1 \<le> 0"
      using failed assms(1) by linarith
    ultimately show ?thesis by simp
  next
    case run
    let ?f = "first_failure sp"
    let ?g = "\<lambda>j. averaged weights (take n (drop (Suc j - n) sp))"
    have "ma_loop sp (int n) ?avg (int (n - 1)) [] = Inr ([] @ map ?g [n - 1..<?f])"
    proof (rule ma_loop_run)
      show "n \<le> Suc (n - 1)" by simp
      show "n - 1 \<le> ?f" using run by simp
      show "?f \<le> length sp" by (rule first_failure_le)
      show "\<forall>j. n - 1 \<le> j \<and> j < ?f \<longrightarrow> \<not> isnan (sp ! j)" using first_failure_before by blast
      show "?f = length sp \<or> isnan (sp ! ?f)"
        using first_failure_le [of sp] first_failure_at [of sp] by linarith
      show "\<forall>j. n - 1 \<le> j \<and> j < ?f \<longrightarrow> ?avg (take n (drop (Suc j - n) sp)) = Inr (?g j)"
      proof (intro allI impI)
        fix j assume j: "n - 1 \<le> j \<and> j < ?f"
        then have "n \<le> Suc j" by linarith
        then have "length (take n (drop (Suc j - n) sp)) = n"
          using window_elements [OF assms(1), of j sp] j by simp
        then show "?avg (take n (drop (Suc j - n) sp)) = Inr (?g j)"
          using assms(3) by (auto simp: averaged_def np_average_weights_def)
      qed
    qed
    then have eq: "moving_average sp n weights = Inr (map ?g [n - 1..<?f])"
      unfolding ma by simp
    have len: "int (length (map ?g [n - 1..<?f])) = max 0 (int ?f - int n + 1)"
      using run assms(1) by simp
    have fin: "\<forall>x\<in>set (map ?g [n - 1..<?f]). \<not> isnan x"
    proof
      fix x assume "x \<in> set (map ?g [n - 1..<?f])"
      then obtain j where j: "n - 1 \<le> j" "j < ?f" "x = ?g j" by auto
      then have "n \<le> Suc j" by linarith
      then have w: "length (take n (drop (Suc j - n) sp)) = n"
        "\<forall>x\<in>set (take n (drop (Suc j - n) sp)). \<not> isnan x"
        using window_elements [OF assms(1), of j sp] j by simp_all
      then have "take n (drop (Suc j - n) sp) \<noteq> []" using assms(1) by auto
      then show "\<not> isnan x" using averaged_finite w(2) j(3) by simp
    qed
    show ?thesis using eq len fin by blast
  qed
qed


lemma permanent_Cons:
  "permanent (x # xs) \<longleftrightarrow> (if isnan x then (\<forall>y\<in>set xs. isnan y) else permanent xs)"
proof (cases "isnan x")
  case True
  have "permanent (x # xs) \<longleftrightarrow> (\<forall>y\<in>set xs. isnan y)"
  proof
    assume p: "permanent (x # xs)"
    show "\<forall>y\<in>set xs. isnan y"
    proof
      fix y assume "y \<in> set xs"
      then obtain k where k: "k < length xs" "y = xs ! k" by (auto simp: in_set_conv_nth)
      have "isnan ((x # xs) ! Suc k)"
        using p True k(1) unfolding permanent_def by (metis length_Cons Suc_less_eq nth_Cons_0 zero_less_Suc)
      then show "isnan y" using k(2) by simp
    qed
  next
    assume a: "\<forall>y\<in>set xs. isnan y"
    show "permanent (x # xs)"
      unfolding permanent_def
    proof (intro allI impI)
      fix d d' assume h: "d < d' \<and> d' < length (x # xs) \<and> isnan ((x # xs) ! d)"
      then obtain e where e: "d' = Suc e" "e < length xs" by (cases d') auto
      then show "isnan ((x # xs) ! d')" using a by simp
    qed
  qed
  then show ?thesis using True by simp
next
  case False
  have "permanent (x # xs) \<longleftrightarrow> permanent xs"
  proof
    assume p: "permanent (x # xs)"
    show "permanent xs"
      unfolding permanent_def
    proof (intro allI impI)
      fix d d' assume h: "d < d' \<and> d' < length xs \<and> isnan (xs ! d)"
      then have "Suc d < Suc d' \<and> Suc d' < length (x # xs) \<and> isnan ((x # xs) ! Suc d)" by simp
      then have "isnan ((x # xs) ! Suc d')" using p unfolding permanent_def by blast
      then show "isnan (xs ! d')" by simp
    qed
  next
    assume p: "permanent xs"
    show "permanent (x # xs)"
      unfolding permanent_def
    proof (intro allI impI)
      fix d d' assume h: "d < d' \<and> d' < length (x # xs) \<and> isnan ((x # xs) ! d)"
      then obtain e where e: "d' = Suc e" "e < length xs" by (cases d') auto
      from h False obtain c where c: "d = Suc c" by (cases d) auto
      then have "c < e \<and> e < length xs \<and> isnan (xs ! c)" using h e by simp
      then have "isnan (xs ! e)" using p unfolding permanent_def by blast
      then show "isnan ((x # xs) ! d')" using e by simp
    qed
  qed
  then show ?thesis using False by simp
qed

lemma permanent_Nil: "permanent []"
  by (simp add: permanent_def)

text \<open>
  C6, as the code has it. For a price path (a sequence with failure permanence) of length
  \<open>N\<close> and a window of \<open>n \<ge> 1\<close> days, called without weights or with \<open>n\<close> weights whose
  sum is not zero: \<open>moving_average\<close> returns a series without not-a-number, of length
  \<open>max(0, N - n + 1)\<close> when the path has no failure marker and of length
  \<open>max(0, f - n + 1)\<close> when its first failure marker is at day \<open>f\<close>. The length is never
  negative: a window longer than the path by two days or more gives the empty series.
\<close>

theorem moving_average_length:
  assumes "1 \<le> n" and "permanent stock_price"
    and "weights = [] \<or> (length weights = n \<and> sum_list weights \<noteq> 0)"
  shows "\<exists>ma. moving_average stock_price n weights = Inr ma
           \<and> (\<forall>x\<in>set ma. \<not> isnan x)
           \<and> ((\<forall>x\<in>set stock_price. \<not> isnan x)
                \<longrightarrow> int (length ma) = max 0 (int (length stock_price) - int n + 1))
           \<and> (\<forall>f. f < length stock_price \<and> isnan (stock_price ! f) \<and> (\<forall>d<f. \<not> isnan (stock_price ! d))
                \<longrightarrow> int (length ma) = max 0 (int f - int n + 1))"
proof -
  from moving_average_permanent [OF assms]
  obtain ma where ma: "moving_average stock_price n weights = Inr ma"
    "int (length ma) = max 0 (int (first_failure stock_price) - int n + 1)"
    "\<forall>x\<in>set ma. \<not> isnan x" by blast
  have a: "(\<forall>x\<in>set stock_price. \<not> isnan x)
             \<longrightarrow> int (length ma) = max 0 (int (length stock_price) - int n + 1)"
    using ma(2) first_failure_none [of stock_price] by simp
  have b: "\<forall>f. f < length stock_price \<and> isnan (stock_price ! f) \<and> (\<forall>d<f. \<not> isnan (stock_price ! d))
                \<longrightarrow> int (length ma) = max 0 (int f - int n + 1)"
  proof (intro allI impI)
    fix f assume "f < length stock_price \<and> isnan (stock_price ! f) \<and> (\<forall>d<f. \<not> isnan (stock_price ! d))"
    then have "first_failure stock_price = f" using first_failure_unique by blast
    then show "int (length ma) = max 0 (int f - int n + 1)" using ma(2) by simp
  qed
  show ?thesis using ma(1,3) a b by blast
qed

theorem moving_average_length_witness:
  "moving_average [Fin 1, Fin 2, Fin 3, NaN, NaN] 2 [] = Inr [Fin (3 / 2), Fin (5 / 2)]
   \<and> int (length [Fin (3 / 2), Fin (5 / 2)]) = max 0 (int 3 - int 2 + 1)"
proof -
  have h1: "(1::nat) \<le> 2" by simp
  have h2: "permanent [Fin 1, Fin 2, Fin 3, NaN, NaN]"
    by (simp add: permanent_Cons permanent_Nil)
  have h3: "([]::real list) = [] \<or> (length ([]::real list) = 2 \<and> sum_list ([]::real list) \<noteq> 0)" by simp
  have e: "moving_average [Fin 1, Fin 2, Fin 3, NaN, NaN] 2 [] = Inr [Fin (3 / 2), Fin (5 / 2)]"
    by code_simp
  from moving_average_length [OF h1 h2 h3]
  obtain ma where ma: "moving_average [Fin 1, Fin 2, Fin 3, NaN, NaN] 2 [] = Inr ma"
    "\<forall>f. f < length [Fin 1, Fin 2, Fin 3, NaN, NaN] \<and> isnan ([Fin 1, Fin 2, Fin 3, NaN, NaN] ! f)
           \<and> (\<forall>d<f. \<not> isnan ([Fin 1, Fin 2, Fin 3, NaN, NaN] ! d))
        \<longrightarrow> int (length ma) = max 0 (int f - int 2 + 1)" by blast
  have f3: "(3::nat) < length [Fin 1, Fin 2, Fin 3, NaN, NaN] \<and> isnan ([Fin 1, Fin 2, Fin 3, NaN, NaN] ! 3)
           \<and> (\<forall>d<3. \<not> isnan ([Fin 1, Fin 2, Fin 3, NaN, NaN] ! d))"
    by (simp add: nth_Cons' less_Suc_eq eval_nat_numeral)
  from ma(2) f3 have "int (length ma) = max 0 (int 3 - int 2 + 1)" by blast
  moreover from ma(1) e have "ma = [Fin (3 / 2), Fin (5 / 2)]" by simp
  ultimately show ?thesis using e by simp
qed

text \<open>A path of three days without failure and a window of five days: the series is empty,
  and its length 0 is not \<open>3 - 5 + 1\<close>.\<close>

theorem moving_average_length_counterexample:
  "moving_average [Fin 1, Fin 2, Fin 3] 5 [] = Inr []
   \<and> \<not> isnan (Fin 1) \<and> \<not> isnan (Fin 2) \<and> \<not> isnan (Fin 3)
   \<and> int (length ([] :: pyfloat list)) \<noteq> int (length [Fin 1, Fin 2, Fin 3]) - int 5 + 1"
proof -
  have "moving_average [Fin 1, Fin 2, Fin 3] 5 [] = Inr []"
    by code_simp
  then show ?thesis by simp
qed

subsection \<open>Index safety of the CrossingAverages loop\<close>

text \<open>
  C10. With windows \<open>1 \<le> m < n\<close> and a price path with failure permanence, whenever the test
  on the slow series lets a day \<open>trade_day \<ge> n + 1\<close> through, the four reads
  \<open>FMA[trade_day-m]\<close>, \<open>FMA[trade_day-m-1]\<close>, \<open>SMA[trade_day-n]\<close> and \<open>SMA[trade_day-1-n]\<close>
  are inside their series, at the index written (none is negative).
\<close>

theorem crossing_accesses_in_range:
  assumes "permanent stock_price" and "1 \<le> m" and "m < n"
    and "moving_average stock_price n [] = Inr sma"
    and "moving_average stock_price m [] = Inr fma"
    and "n + 1 \<le> trade_day"
    and "\<not> (int trade_day - int n > int (length sma) - 1)"
  shows "trade_day - m < length fma \<and> trade_day - n < length sma
         \<and> py_get fma (int trade_day - int m) = Inr (fma ! (trade_day - m))
         \<and> py_get fma (int trade_day - int m - 1) = Inr (fma ! (trade_day - m - 1))
         \<and> py_get sma (int trade_day - int n) = Inr (sma ! (trade_day - n))
         \<and> py_get sma (int trade_day - 1 - int n) = Inr (sma ! (trade_day - n - 1))"
proof -
  have n1: "1 \<le> n" using assms(2,3) by simp
  from moving_average_permanent [OF n1 assms(1), of "[]"] assms(4)
  have ls: "int (length sma) = max 0 (int (first_failure stock_price) - int n + 1)" by auto
  from moving_average_permanent [OF assms(2) assms(1), of "[]"] assms(5)
  have lf: "int (length fma) = max 0 (int (first_failure stock_price) - int m + 1)" by auto
  have d: "int trade_day \<le> int (first_failure stock_price)"
    using ls assms(6,7) by linarith
  have a: "trade_day - m < length fma" using lf d assms(3,6) by linarith
  have b: "trade_day - n < length sma" using assms(6,7) by linarith
  have i1: "int trade_day - int m = int (trade_day - m)" using assms(3,6) by linarith
  have i2: "int trade_day - int m - 1 = int (trade_day - m - 1)" using assms(3,6) by linarith
  have i3: "int trade_day - int n = int (trade_day - n)" using assms(6) by linarith
  have i4: "int trade_day - 1 - int n = int (trade_day - n - 1)" using assms(6) by linarith
  have g1: "py_get fma (int trade_day - int m) = Inr (fma ! (trade_day - m))"
    by (subst i1) (use a in \<open>simp add: py_get_def\<close>)
  have g2: "py_get fma (int trade_day - int m - 1) = Inr (fma ! (trade_day - m - 1))"
    by (subst i2) (use a in \<open>simp add: py_get_def\<close>)
  have g3: "py_get sma (int trade_day - int n) = Inr (sma ! (trade_day - n))"
    by (subst i3) (use b in \<open>simp add: py_get_def\<close>)
  have g4: "py_get sma (int trade_day - 1 - int n) = Inr (sma ! (trade_day - n - 1))"
    by (subst i4) (use b in \<open>simp add: py_get_def\<close>)
  show ?thesis using a b g1 g2 g3 g4 by blast
qed

theorem crossing_accesses_in_range_witness:
  "py_get [Fin 1, Fin 2, Fin 3, Fin 4] (int 3 - int 1) = Inr ([Fin 1, Fin 2, Fin 3, Fin 4] ! (3 - 1))
   \<and> py_get [Fin (3 / 2), Fin (5 / 2), Fin (7 / 2)] (int 3 - 1 - int 2)
       = Inr ([Fin (3 / 2), Fin (5 / 2), Fin (7 / 2)] ! (3 - 2 - 1))"
proof -
  have h1: "permanent [Fin 1, Fin 2, Fin 3, Fin 4, NaN]"
    by (simp add: permanent_Cons permanent_Nil)
  have h2: "(1::nat) \<le> 1" by simp
  have h3: "(1::nat) < 2" by simp
  have h4: "moving_average [Fin 1, Fin 2, Fin 3, Fin 4, NaN] 2 [] = Inr [Fin (3 / 2), Fin (5 / 2), Fin (7 / 2)]"
    by code_simp
  have h5: "moving_average [Fin 1, Fin 2, Fin 3, Fin 4, NaN] 1 [] = Inr [Fin 1, Fin 2, Fin 3, Fin 4]"
    by code_simp
  have h6: "(2::nat) + 1 \<le> 3" by simp
  have h7: "\<not> (int 3 - int 2 > int (length [Fin (3 / 2), Fin (5 / 2), Fin (7 / 2)]) - 1)" by simp
  show ?thesis
    using crossing_accesses_in_range [OF h1 h2 h3 h4 h5 h6 h7] by blast
qed


subsection \<open>The terminal flush\<close>

lemma final_sell_flushes:
  assumes "final_sell stock_prices fees st = Inr (portfolio', l')"
  shows "\<forall>s<shape1 stock_prices. \<not> isnan (cell stock_prices (shape0 stock_prices - 1) s)
            \<longrightarrow> s < length portfolio' \<and> portfolio' ! s = 0"
proof -
  let ?last = "shape0 stock_prices - 1"
  let ?I = "\<lambda>k (t :: int list \<times> ledger). \<forall>s<k. \<not> isnan (cell stock_prices ?last s)
              \<longrightarrow> s < length (fst t) \<and> fst t ! s = 0"
  let ?body = "\<lambda>stock_number (portfolio, l).
          if shape0 stock_prices = 0 then Inl IndexError
          else bind_err (mat_get stock_prices (shape0 stock_prices - 1) stock_number) (\<lambda>p.
            if \<not> isnan p then
              bind_err (py_get portfolio (int stock_number)) (\<lambda>held.
                if held \<noteq> 0 then
                  sell (shape0 stock_prices - 1) stock_number stock_prices fees portfolio l
                else Inr (portfolio, l))
            else Inr (portfolio, l))"
  have "?I (shape1 stock_prices) (portfolio', l')"
  proof (rule for_loop_upt_partial [where I = ?I and body = ?body and s = st])
    show "0 \<le> shape1 stock_prices" by simp
    show "?I 0 st" by simp
    show "for_loop [0..<shape1 stock_prices] ?body st = Inr (portfolio', l')"
      using assms by (simp add: final_sell_def)
  next
    fix i :: nat and t t' :: "int list \<times> ledger"
    assume i: "i < shape1 stock_prices" and inv: "?I i t" and step: "?body i t = Inr t'"
    obtain pf l where t: "t = (pf, l)" by (cases t)
    show "?I (Suc i) t'"
    proof (cases "isnan (cell stock_prices ?last i)")
      case True
      then have "t' = t" using step t i
        by (auto simp: bind_err_Inr_iff mat_get_def split: if_splits)
      then show ?thesis using inv True by (auto simp: less_Suc_eq)
    next
      case False
      then have held: "i < length pf" and
        t': "fst t' = (if pf ! i \<noteq> 0 then pf[i := 0] else pf)"
        using step t i
        by (auto simp: bind_err_Inr_iff mat_get_def py_get_def sell_def log_transaction_def
                 split: if_splits)
      show ?thesis
      proof (cases "pf ! i \<noteq> 0")
        case True
        then have "fst t' = pf[i := 0]" using t' by simp
        then show ?thesis using inv t held by (auto simp: less_Suc_eq nth_list_update)
      next
        case False
        then have "fst t' = pf" using t' by simp
        then show ?thesis using inv t held False by (auto simp: less_Suc_eq)
      qed
    qed
  qed
  then show ?thesis by simp
qed

text \<open>
  C8. After a run of any of the three policies that returns, every stock whose price on the
  last day is not the failure marker has a holding of zero in the final portfolio; only a
  stock that has failed by the last day can retain shares.
\<close>

theorem terminal_flush:
  "(random decision stock_prices period amount fees ledger_file = Inr (portfolio, l)
      \<longrightarrow> (\<forall>s<shape1 (as_matrix stock_prices).
             \<not> isnan (cell (as_matrix stock_prices) (shape0 (as_matrix stock_prices) - 1) s)
             \<longrightarrow> s < length portfolio \<and> portfolio ! s = 0))
   \<and> (crossing_averages stock_prices m n amount fees ledger_file = Inr (portfolio, l)
      \<longrightarrow> (\<forall>s<shape1 (as_matrix stock_prices).
             \<not> isnan (cell (as_matrix stock_prices) (shape0 (as_matrix stock_prices) - 1) s)
             \<longrightarrow> s < length portfolio \<and> portfolio ! s = 0))
   \<and> (momentum stock_prices osc_type n T_over T_under amount fees cool_off_period ledger_file
         = Inr (portfolio, l)
      \<longrightarrow> (\<forall>s<shape1 (as_matrix stock_prices).
             \<not> isnan (cell (as_matrix stock_prices) (shape0 (as_matrix stock_prices) - 1) s)
             \<longrightarrow> s < length portfolio \<and> portfolio ! s = 0))"
proof (intro conjI impI)
  assume "random decision stock_prices period amount fees ledger_file = Inr (portfolio, l)"
  then obtain st where "final_sell (as_matrix stock_prices) fees st = Inr (portfolio, l)"
    by (auto simp: random_def Let_def bind_err_Inr_iff)
  then show "\<forall>s<shape1 (as_matrix stock_prices).
             \<not> isnan (cell (as_matrix stock_prices) (shape0 (as_matrix stock_prices) - 1) s)
             \<longrightarrow> s < length portfolio \<and> portfolio ! s = 0"
    by (rule final_sell_flushes)
next
  assume "crossing_averages stock_prices m n amount fees ledger_file = Inr (portfolio, l)"
  then obtain st where "final_sell (as_matrix stock_prices) fees st = Inr (portfolio, l)"
    by (auto simp: crossing_averages_def Let_def bind_err_Inr_iff)
  then show "\<forall>s<shape1 (as_matrix stock_prices).
             \<not> isnan (cell (as_matrix stock_prices) (shape0 (as_matrix stock_prices) - 1) s)
             \<longrightarrow> s < length portfolio \<and> portfolio ! s = 0"
    by (rule final_sell_flushes)
next
  assume "momentum stock_prices osc_type n T_over T_under amount fees cool_off_period ledger_file
         = Inr (portfolio, l)"
  then obtain st where "final_sell (as_matrix stock_prices) fees st = Inr (portfolio, l)"
    by (auto simp: momentum_def Let_def bind_err_Inr_iff)
  then show "\<forall>s<shape1 (as_matrix stock_prices).
             \<not> isnan (cell (as_matrix stock_prices) (shape0 (as_matrix stock_prices) - 1) s)
             \<longrightarrow> s < length portfolio \<and> portfolio ! s = 0"
    by (rule final_sell_flushes)
qed


theorem terminal_flush_witness:
  "random (\<lambda>d s. if d = 1 then 1 else 0) flush_prices 1 5000 20 []
     = Inr ([0, 2241],
        [\<lparr>e_type = ''buy'', e_date = 0, e_stock = 0, e_shares = 498, e_price = Fin 10, e_cash = Fin (- 5000)\<rparr>,
         \<lparr>e_type = ''buy'', e_date = 0, e_stock = 1, e_shares = 996, e_price = Fin 5, e_cash = Fin (- 5000)\<rparr>,
         \<lparr>e_type = ''buy'', e_date = 1, e_stock = 0, e_shares = 553, e_price = Fin 9, e_cash = Fin (- 4997)\<rparr>,
         \<lparr>e_type = ''buy'', e_date = 1, e_stock = 1, e_shares = 1245, e_price = Fin 4, e_cash = Fin (- 5000)\<rparr>,
         \<lparr>e_type = ''sell'', e_date = 3, e_stock = 0, e_shares = 1051, e_price = Fin 7, e_cash = Fin 7337\<rparr>])
   \<and> crossing_averages flush_prices 1 2 5000 20 []
     = Inr ([0, 996],
        [\<lparr>e_type = ''buy'', e_date = 0, e_stock = 0, e_shares = 498, e_price = Fin 10, e_cash = Fin (- 5000)\<rparr>,
         \<lparr>e_type = ''buy'', e_date = 0, e_stock = 1, e_shares = 996, e_price = Fin 5, e_cash = Fin (- 5000)\<rparr>,
         \<lparr>e_type = ''sell'', e_date = 3, e_stock = 0, e_shares = 498, e_price = Fin 7, e_cash = Fin 3466\<rparr>])
   \<and> momentum flush_prices ''stochastic'' 2 (8 / 10) (2 / 10) 5000 20 2 []
     = Inr ([0, 996],
        [\<lparr>e_type = ''buy'', e_date = 0, e_stock = 0, e_shares = 498, e_price = Fin 10, e_cash = Fin (- 5000)\<rparr>,
         \<lparr>e_type = ''buy'', e_date = 0, e_stock = 1, e_shares = 996, e_price = Fin 5, e_cash = Fin (- 5000)\<rparr>,
         \<lparr>e_type = ''buy'', e_date = 3, e_stock = 0, e_shares = 711, e_price = Fin 7, e_cash = Fin (- 4997)\<rparr>,
         \<lparr>e_type = ''sell'', e_date = 3, e_stock = 0, e_shares = 1209, e_price = Fin 7, e_cash = Fin 8443\<rparr>])
   \<and> \<not> isnan (cell (as_matrix flush_prices) (shape0 (as_matrix flush_prices) - 1) 0)
   \<and> [0, 2241 :: int] ! 0 = 0 \<and> [0, 996 :: int] ! 0 = 0"
proof -
  have e1: "random (\<lambda>d s. if d = 1 then 1 else 0) flush_prices 1 5000 20 []
     = Inr ([0, 2241],
        [\<lparr>e_type = ''buy'', e_date = 0, e_stock = 0, e_shares = 498, e_price = Fin 10, e_cash = Fin (- 5000)\<rparr>,
         \<lparr>e_type = ''buy'', e_date = 0, e_stock = 1, e_shares = 996, e_price = Fin 5, e_cash = Fin (- 5000)\<rparr>,
         \<lparr>e_type = ''buy'', e_date = 1, e_stock = 0, e_shares = 553, e_price = Fin 9, e_cash = Fin (- 4997)\<rparr>,
         \<lparr>e_type = ''buy'', e_date = 1, e_stock = 1, e_shares = 1245, e_price = Fin 4, e_cash = Fin (- 5000)\<rparr>,
         \<lparr>e_type = ''sell'', e_date = 3, e_stock = 0, e_shares = 1051, e_price = Fin 7, e_cash = Fin 7337\<rparr>])"
    by code_simp
  have e2: "crossing_averages flush_prices 1 2 5000 20 []
     = Inr ([0, 996],
        [\<lparr>e_type = ''buy'', e_date = 0, e_stock = 0, e_shares = 498, e_price = Fin 10, e_cash = Fin (- 5000)\<rparr>,
         \<lparr>e_type = ''buy'', e_date = 0, e_stock = 1, e_shares = 996, e_price = Fin 5, e_cash = Fin (- 5000)\<rparr>,
         \<lparr>e_type = ''sell'', e_date = 3, e_stock = 0, e_shares = 498, e_price = Fin 7, e_cash = Fin 3466\<rparr>])"
    by code_simp
  have e3: "momentum flush_prices ''stochastic'' 2 (8 / 10) (2 / 10) 5000 20 2 []
     = Inr ([0, 996],
        [\<lparr>e_type = ''buy'', e_date = 0, e_stock = 0, e_shares = 498, e_price = Fin 10, e_cash = Fin (- 5000)\<rparr>,
         \<lparr>e_type = ''buy'', e_date = 0, e_stock = 1, e_shares = 996, e_price = Fin 5, e_cash = Fin (- 5000)\<rparr>,
         \<lparr>e_type = ''buy'', e_date = 3, e_stock = 0, e_shares = 711, e_price = Fin 7, e_cash = Fin (- 4997)\<rparr>,
         \<lparr>e_type = ''sell'', e_date = 3, e_stock = 0, e_shares = 1209, e_price = Fin 7, e_cash = Fin 8443\<rparr>])"
    by code_simp
  have s0: "0 < shape1 (as_matrix flush_prices)"
    by (simp add: flush_prices_def of_rows_def)
  have p0: "\<not> isnan (cell (as_matrix flush_prices) (shape0 (as_matrix flush_prices) - 1) 0)"
    by (simp add: flush_prices_def of_rows_def)
  note f1 = terminal_flush [THEN conjunct1, rule_format, OF e1 s0 p0]
  note f2 = terminal_flush [THEN conjunct2, THEN conjunct1, rule_format, OF e2 s0 p0]
  note f3 = terminal_flush [THEN conjunct2, THEN conjunct2, rule_format, OF e3 s0 p0]
  show ?thesis using e1 e2 e3 p0 f1 f2 f3 by blast
qed


subsection \<open>Crossing detection\<close>

lemma buy_appends:
  assumes "buy date stock capital stock_prices fees portfolio l = Inr (portfolio', l')"
  shows "\<exists>e. l' = l @ [e] \<and> e_type e = ''buy'' \<and> e_date e = date \<and> e_stock e = stock"
  using assms
  by (auto simp: buy_def log_transaction_def split: sum.splits if_splits)

lemma sell_appends:
  assumes "sell date stock stock_prices fees portfolio l = Inr (portfolio', l')"
  shows "\<exists>e. l' = l @ [e] \<and> e_type e = ''sell'' \<and> e_date e = date \<and> e_stock e = stock"
  using assms
  by (auto simp: sell_def log_transaction_def split: sum.splits if_splits)

text \<open>
  C7. In the CrossingAverages policy, for a day \<open>d \<ge> n + 1\<close> that both series of a stock cover
  (fast index \<open>d - m\<close>, slow index \<open>d - n\<close>, with \<open>m < n\<close>): the purchase is made iff
  \<open>fast[d] \<ge> slow[d]\<close> and \<open>fast[d-1] < slow[d-1]\<close>; the sale is made iff
  \<open>fast[d] \<le> slow[d]\<close> and \<open>fast[d-1] > slow[d-1]\<close> and the holding is not zero; the two
  conditions never hold together. The step is the purchase, the sale or nothing accordingly,
  and when it returns the ledger has gained one buy line, one sell line or none accordingly.
\<close>

theorem crossing_detection:
  assumes "stock_number < length SMA" and "stock_number < length FMA"
    and "stock_number < length portfolio"
    and "m < n" and "n + 1 \<le> trade_day"
    and "trade_day - m < length (FMA ! stock_number)"
    and "trade_day - n < length (SMA ! stock_number)"
  shows "crossing_body SMA FMA stock_prices m n amount fees trade_day stock_number (portfolio, l)
           = (if fge (FMA ! stock_number ! (trade_day - m)) (SMA ! stock_number ! (trade_day - n))
                 \<and> flt (FMA ! stock_number ! (trade_day - m - 1)) (SMA ! stock_number ! (trade_day - n - 1))
              then buy trade_day stock_number amount stock_prices fees portfolio l
              else if fle (FMA ! stock_number ! (trade_day - m)) (SMA ! stock_number ! (trade_day - n))
                 \<and> fgt (FMA ! stock_number ! (trade_day - m - 1)) (SMA ! stock_number ! (trade_day - n - 1))
                 \<and> portfolio ! stock_number \<noteq> 0
              then sell trade_day stock_number stock_prices fees portfolio l
              else Inr (portfolio, l))
         \<and> \<not> ((fge (FMA ! stock_number ! (trade_day - m)) (SMA ! stock_number ! (trade_day - n))
                 \<and> flt (FMA ! stock_number ! (trade_day - m - 1)) (SMA ! stock_number ! (trade_day - n - 1)))
              \<and> (fle (FMA ! stock_number ! (trade_day - m)) (SMA ! stock_number ! (trade_day - n))
                 \<and> fgt (FMA ! stock_number ! (trade_day - m - 1)) (SMA ! stock_number ! (trade_day - n - 1))))
         \<and> (\<forall>portfolio' l'.
               crossing_body SMA FMA stock_prices m n amount fees trade_day stock_number (portfolio, l)
                 = Inr (portfolio', l')
               \<longrightarrow> ((\<exists>e. l' = l @ [e] \<and> e_type e = ''buy'')
                      \<longleftrightarrow> fge (FMA ! stock_number ! (trade_day - m)) (SMA ! stock_number ! (trade_day - n))
                          \<and> flt (FMA ! stock_number ! (trade_day - m - 1)) (SMA ! stock_number ! (trade_day - n - 1)))
                 \<and> ((\<exists>e. l' = l @ [e] \<and> e_type e = ''sell'')
                      \<longleftrightarrow> fle (FMA ! stock_number ! (trade_day - m)) (SMA ! stock_number ! (trade_day - n))
                          \<and> fgt (FMA ! stock_number ! (trade_day - m - 1)) (SMA ! stock_number ! (trade_day - n - 1))
                          \<and> portfolio ! stock_number \<noteq> 0))"
proof -
  let ?fma = "FMA ! stock_number" and ?sma = "SMA ! stock_number"
  let ?fd = "?fma ! (trade_day - m)" and ?fp = "?fma ! (trade_day - m - 1)"
  let ?sd = "?sma ! (trade_day - n)" and ?sp = "?sma ! (trade_day - n - 1)"
  let ?B = "fge ?fd ?sd \<and> flt ?fp ?sp"
  let ?S = "fle ?fd ?sd \<and> fgt ?fp ?sp"
  let ?body = "crossing_body SMA FMA stock_prices m n amount fees trade_day stock_number (portfolio, l)"
  have i1: "int trade_day - int m = int (trade_day - m)" using assms(4,5) by linarith
  have i2: "int trade_day - int m - 1 = int (trade_day - m - 1)" using assms(4,5) by linarith
  have i3: "int trade_day - int n = int (trade_day - n)" using assms(5) by linarith
  have i4: "int trade_day - 1 - int n = int (trade_day - n - 1)" using assms(5) by linarith
  have g1: "py_get ?fma (int trade_day - int m) = Inr ?fd"
    by (subst i1) (use assms(6) in \<open>simp add: py_get_def\<close>)
  have g2: "py_get ?fma (int trade_day - int m - 1) = Inr ?fp"
    by (subst i2) (use assms(6) in \<open>simp add: py_get_def\<close>)
  have g3: "py_get ?sma (int trade_day - int n) = Inr ?sd"
    by (subst i3) (use assms(7) in \<open>simp add: py_get_def\<close>)
  have g4: "py_get ?sma (int trade_day - 1 - int n) = Inr ?sp"
    by (subst i4) (use assms(7) in \<open>simp add: py_get_def\<close>)
  have below: "crossing fge flt ?fma ?sma trade_day m n = Inr ?B"
    by (simp add: crossing_def g1 g2 g3 g4)
  have above: "crossing fle fgt ?fma ?sma trade_day m n = Inr ?S"
    by (simp add: crossing_def g1 g2 g3 g4)
  have s1: "py_get SMA (int stock_number) = Inr ?sma" using assms(1) by (simp add: py_get_def)
  have s2: "py_get FMA (int stock_number) = Inr ?fma" using assms(2) by (simp add: py_get_def)
  have s3: "py_get portfolio (int stock_number) = Inr (portfolio ! stock_number)"
    using assms(3) by (simp add: py_get_def)
  have pass: "\<not> (int trade_day - int n > int (length ?sma) - 1)" using assms(5,7) by linarith
  have eq: "?body = (if ?B then buy trade_day stock_number amount stock_prices fees portfolio l
              else if ?S \<and> portfolio ! stock_number \<noteq> 0
              then sell trade_day stock_number stock_prices fees portfolio l
              else Inr (portfolio, l))"
    using pass by (simp add: crossing_body_def s1 s2 s3 below above)
  have excl: "\<not> (?B \<and> ?S)"
    by (cases ?fp; cases ?sp) auto
  have led: "\<forall>portfolio' l'. ?body = Inr (portfolio', l')
               \<longrightarrow> ((\<exists>e. l' = l @ [e] \<and> e_type e = ''buy'') \<longleftrightarrow> ?B)
                 \<and> ((\<exists>e. l' = l @ [e] \<and> e_type e = ''sell'') \<longleftrightarrow> ?S \<and> portfolio ! stock_number \<noteq> 0)"
  proof (intro allI impI)
    fix portfolio' l' assume r: "?body = Inr (portfolio', l')"
    consider (b) ?B | (s) "\<not> ?B" "?S \<and> portfolio ! stock_number \<noteq> 0"
      | (h) "\<not> ?B" "\<not> (?S \<and> portfolio ! stock_number \<noteq> 0)" by blast
    then show "((\<exists>e. l' = l @ [e] \<and> e_type e = ''buy'') \<longleftrightarrow> ?B)
                 \<and> ((\<exists>e. l' = l @ [e] \<and> e_type e = ''sell'') \<longleftrightarrow> ?S \<and> portfolio ! stock_number \<noteq> 0)"
    proof cases
      case b
      have "?body = buy trade_day stock_number amount stock_prices fees portfolio l"
        unfolding eq using b by (rule if_P)
      then have "buy trade_day stock_number amount stock_prices fees portfolio l = Inr (portfolio', l')"
        using r by (simp only:)
      from buy_appends [OF this] obtain e where e: "l' = l @ [e]" "e_type e = ''buy''" by blast
      have "\<not> ?S" using b excl by blast
      then show ?thesis using b e by auto
    next
      case s
      have "?body = sell trade_day stock_number stock_prices fees portfolio l"
        unfolding eq by (simp only: if_not_P [OF s(1)] if_P [OF s(2)])
      then have "sell trade_day stock_number stock_prices fees portfolio l = Inr (portfolio', l')"
        using r by (simp only:)
      from sell_appends [OF this] obtain e where e: "l' = l @ [e]" "e_type e = ''sell''" by blast
      then show ?thesis using s by auto
    next
      case h
      have "?body = Inr (portfolio, l)"
        unfolding eq by (simp only: if_not_P [OF h(1)] if_not_P [OF h(2)])
      then have "l' = l" using r by simp
      then show ?thesis using h by auto
    qed
  qed
  show ?thesis
    apply (intro conjI)
    subgoal using eq by (simp only: conj_assoc)
    subgoal by (rule excl)
    subgoal using led by (simp only: conj_assoc)
    done
qed

theorem crossing_detection_witness:
  "crossing_body [[Fin 3, Fin 3, Fin 3]] [[Fin 1, Fin 2, Fin 4, Fin 5]]
       \<lparr>shape0 = 5, shape1 = 1, cell = (\<lambda>d s. Fin 100)\<rparr> 1 2 5000 20 3 0 ([7], [])
     = Inr ([56], [\<lparr>e_type = ''buy'', e_date = 3, e_stock = 0, e_shares = 49, e_price = Fin 100,
                     e_cash = Fin (- 4920)\<rparr>])"
proof -
  have h1: "(0::nat) < length [[Fin 3, Fin 3, Fin 3]]" by simp
  have h2: "(0::nat) < length [[Fin 1, Fin 2, Fin 4, Fin 5]]" by simp
  have h3: "(0::nat) < length [7::int]" by simp
  have h4: "(1::nat) < 2" by simp
  have h5: "(2::nat) + 1 \<le> 3" by simp
  have h6: "(3::nat) - 1 < length ([[Fin 1, Fin 2, Fin 4, Fin 5]] ! 0)" by simp
  have h7: "(3::nat) - 2 < length ([[Fin 3, Fin 3, Fin 3]] ! 0)" by simp
  have b: "buy 3 0 5000 \<lparr>shape0 = 5, shape1 = 1, cell = (\<lambda>d s. Fin 100)\<rparr> 20 [7] []
     = Inr ([56], [\<lparr>e_type = ''buy'', e_date = 3, e_stock = 0, e_shares = 49, e_price = Fin 100,
                     e_cash = Fin (- 4920)\<rparr>])"
    by code_simp
  show ?thesis
    using crossing_detection [OF h1 h2 h3 h4 h5 h6 h7, THEN conjunct1,
            of "\<lparr>shape0 = 5, shape1 = 1, cell = (\<lambda>d s. Fin 100)\<rparr>" 5000 20 "[]"] b
    by (simp add: numeral_2_eq_2)
qed


subsection \<open>The cool-off period of the Momentum policy\<close>

lemma cooled_snoc:
  assumes "cooled c l"
    and "e_type e = ''buy'' \<longrightarrow> (\<forall>e'\<in>set l. e_type e' = ''buy'' \<and> e_stock e' = e_stock e
                                  \<longrightarrow> c \<le> int (e_date e) - int (e_date e'))"
  shows "cooled c (l @ [e])"
  unfolding cooled_def
proof (intro allI impI)
  fix i j
  assume h: "i < j \<and> j < length (l @ [e]) \<and> e_type ((l @ [e]) ! i) = ''buy''
              \<and> e_type ((l @ [e]) ! j) = ''buy'' \<and> e_stock ((l @ [e]) ! i) = e_stock ((l @ [e]) ! j)"
  show "c \<le> int (e_date ((l @ [e]) ! j)) - int (e_date ((l @ [e]) ! i))"
  proof (cases "j < length l")
    case True
    then have "(l @ [e]) ! j = l ! j" "(l @ [e]) ! i = l ! i" using h by (simp_all add: nth_append)
    then show ?thesis using assms(1) h True unfolding cooled_def by simp
  next
    case False
    then have j: "j = length l" using h by simp
    then have ej: "(l @ [e]) ! j = e" by simp
    have il: "i < length l" using h j by simp
    then have ei: "(l @ [e]) ! i = l ! i" by (simp add: nth_append)
    have "l ! i \<in> set l" using il by simp
    then show ?thesis using assms(2) h ej ei by simp
  qed
qed

lemma cooled_append_sells:
  "cooled c l \<Longrightarrow> \<forall>e\<in>set l3. e_type e = ''sell'' \<Longrightarrow> cooled c (l @ l3)"
proof (induction l3 rule: rev_induct)
  case Nil
  then show ?case by simp
next
  case (snoc e l3)
  then have "cooled c (l @ l3)" by simp
  moreover have "e_type e \<noteq> ''buy''" using snoc.prems(2) by simp
  ultimately have "cooled c ((l @ l3) @ [e])" by (intro cooled_snoc) simp_all
  then show ?case by simp
qed

lemma cool_off_tick_inv:
  assumes "cool_inv c b l0 l cool_off"
  shows "cool_inv c (b + 1) l0 l (cool_off_tick c cool_off)"
proof -
  from assms obtain l2 where l2: "l = l0 @ l2" "cooled c l2"
    "\<forall>e\<in>set l2. e_type e = ''buy''
        \<longrightarrow> e_stock e < length cool_off \<and> int (e_date e) \<le> b
          \<and> int (e_date e) + cool_off ! e_stock e \<le> b"
    unfolding cool_inv_def by blast
  have "\<forall>e\<in>set l2. e_type e = ''buy''
        \<longrightarrow> e_stock e < length (cool_off_tick c cool_off) \<and> int (e_date e) \<le> b + 1
          \<and> int (e_date e) + cool_off_tick c cool_off ! e_stock e \<le> b + 1"
    using l2(3) by (auto simp: cool_off_tick_def)
  then show ?thesis using l2(1,2) unfolding cool_inv_def by blast
qed

lemma momentum_body_cases:
  assumes "momentum_body osc stock_prices k T_over T_under amount fees c t s ((pf, l), co)
             = Inr ((pf', l'), co')"
  shows "(l' = l \<and> co' = co)
       \<or> (\<exists>e. l' = l @ [e] \<and> e_type e = ''sell'' \<and> co' = co)
       \<or> (\<exists>e. l' = l @ [e] \<and> e_type e = ''buy'' \<and> e_date e = t \<and> e_stock e = s
              \<and> co' = co[s := 0] \<and> s < length co \<and> co ! s = c)"
proof -
  from assms obtain series where series: "py_get osc (int s) = Inr series" 
    and r1: "(if int t - int k > int (length series) - 1 then Inr ((pf, l), co)
          else
            bind_err (py_get series (int t - int k)) (\<lambda>level.
            bind_err (if fgt level (Fin T_over)
                      then bind_err (py_get pf (int s)) (\<lambda>held. Inr (held \<noteq> 0))
                      else Inr False) (\<lambda>overvalued.
              if overvalued then
                bind_err (sell t s stock_prices fees pf l) (\<lambda>pl.
                  Inr (pl, co))
              else
                bind_err (py_get series (int t - int k)) (\<lambda>level'.
                bind_err (if flt level' (Fin T_under)
                          then bind_err (py_get co (int s)) (\<lambda>c'. Inr (c' = c))
                          else Inr False) (\<lambda>undervalued.
                  if undervalued then
                    bind_err (buy t s amount stock_prices fees pf l) (\<lambda>pl.
                      Inr (pl, co[s := 0]))
                  else Inr ((pf, l), co)))))) = Inr ((pf', l'), co')"
    by (auto simp: momentum_body_def bind_err_Inr_iff)
  show ?thesis
  proof (cases "int t - int k > int (length series) - 1")
    case True
    then show ?thesis using r1 by simp
  next
    case False
    with r1 obtain level overvalued where
      r2: "(if overvalued then
                bind_err (sell t s stock_prices fees pf l) (\<lambda>pl. Inr (pl, co))
              else
                bind_err (py_get series (int t - int k)) (\<lambda>level'.
                bind_err (if flt level' (Fin T_under)
                          then bind_err (py_get co (int s)) (\<lambda>c'. Inr (c' = c))
                          else Inr False) (\<lambda>undervalued.
                  if undervalued then
                    bind_err (buy t s amount stock_prices fees pf l) (\<lambda>pl.
                      Inr (pl, co[s := 0]))
                  else Inr ((pf, l), co)))) = Inr ((pf', l'), co')"
      by (auto simp: bind_err_Inr_iff)
    show ?thesis
    proof (cases overvalued)
      case True
      with r2 have "sell t s stock_prices fees pf l = Inr (pf', l')" "co' = co"
        by (auto simp: bind_err_Inr_iff)
      then show ?thesis using sell_appends by blast
    next
      case False
      with r2 obtain level' undervalued where
        u: "(if flt level' (Fin T_under)
                          then bind_err (py_get co (int s)) (\<lambda>c'. Inr (c' = c))
                          else Inr False) = Inr undervalued"
        and r3: "(if undervalued then
                    bind_err (buy t s amount stock_prices fees pf l) (\<lambda>pl.
                      Inr (pl, co[s := 0]))
                  else Inr ((pf, l), co)) = Inr ((pf', l'), co')"
        by (auto simp: bind_err_Inr_iff)
      show ?thesis
      proof (cases undervalued)
        case True
        with u have c: "s < length co" "co ! s = c"
          by (auto simp: bind_err_Inr_iff py_get_def split: if_splits)
        from True r3 have "buy t s amount stock_prices fees pf l = Inr (pf', l')" "co' = co[s := 0]"
          by (auto simp: bind_err_Inr_iff)
        then show ?thesis using buy_appends c by blast
      next
        case False
        then show ?thesis using r3 by simp
      qed
    qed
  qed
qed

lemma momentum_body_cool:
  assumes "momentum_body osc stock_prices k T_over T_under amount fees c t s ((pf, l), co)
             = Inr ((pf', l'), co')"
    and "cool_inv c (int t) l0 l co"
  shows "cool_inv c (int t) l0 l' co'"
proof -
  from assms(2) obtain l2 where l2: "l = l0 @ l2" "cooled c l2"
    "\<forall>e\<in>set l2. e_type e = ''buy''
        \<longrightarrow> e_stock e < length co \<and> int (e_date e) \<le> int t
          \<and> int (e_date e) + co ! e_stock e \<le> int t"
    unfolding cool_inv_def by blast
  from momentum_body_cases [OF assms(1)]
  consider (none) "l' = l" "co' = co"
    | (sold) e where "l' = l @ [e]" "e_type e = ''sell''" "co' = co"
    | (bought) e where "l' = l @ [e]" "e_type e = ''buy''" "e_date e = t" "e_stock e = s"
        "co' = co[s := 0]" "s < length co" "co ! s = c"
    by blast
  then show ?thesis
  proof cases
    case none
    then show ?thesis using assms(2) by simp
  next
    case sold
    have "cooled c (l2 @ [e])" using l2(2) sold(2) by (intro cooled_snoc) simp_all
    moreover have "l' = l0 @ (l2 @ [e])" using sold(1) l2(1) by simp
    moreover have "\<forall>x\<in>set (l2 @ [e]). e_type x = ''buy''
        \<longrightarrow> e_stock x < length co' \<and> int (e_date x) \<le> int t
          \<and> int (e_date x) + co' ! e_stock x \<le> int t"
      using l2(3) sold(2,3) by auto
    ultimately show ?thesis unfolding cool_inv_def by blast
  next
    case bought
    have "cooled c (l2 @ [e])"
    proof (rule cooled_snoc [OF l2(2)], intro impI ballI)
      fix e' assume "e' \<in> set l2" "e_type e' = ''buy'' \<and> e_stock e' = e_stock e"
      then have "int (e_date e') + co ! s \<le> int t" using l2(3) bought(4) by auto
      then show "c \<le> int (e_date e) - int (e_date e')" using bought(3,7) by simp
    qed
    moreover have "l' = l0 @ (l2 @ [e])" using bought(1) l2(1) by simp
    moreover have "\<forall>x\<in>set (l2 @ [e]). e_type x = ''buy''
        \<longrightarrow> e_stock x < length co' \<and> int (e_date x) \<le> int t
          \<and> int (e_date x) + co' ! e_stock x \<le> int t"
    proof (intro ballI impI)
      fix x assume x: "x \<in> set (l2 @ [e])" "e_type x = ''buy''"
      show "e_stock x < length co' \<and> int (e_date x) \<le> int t
          \<and> int (e_date x) + co' ! e_stock x \<le> int t"
      proof (cases "x = e")
        case True
        then show ?thesis using bought by simp
      next
        case False
        then have "x \<in> set l2" using x(1) by simp
        then have old: "e_stock x < length co" "int (e_date x) \<le> int t"
          "int (e_date x) + co ! e_stock x \<le> int t" using l2(3) x(2) by auto
        show ?thesis
        proof (cases "e_stock x = s")
          case True
          then show ?thesis using old bought(5,6) by simp
        next
          case False
          then show ?thesis using old bought(5) by simp
        qed
      qed
    qed
    ultimately show ?thesis unfolding cool_inv_def by blast
  qed
qed


lemma for_loop_preserves:
  assumes "P s" and "for_loop js body s = Inr s'"
    and "\<And>i t t'. i \<in> set js \<Longrightarrow> P t \<Longrightarrow> body i t = Inr t' \<Longrightarrow> P t'"
  shows "P s'"
  using assms
proof (induction js arbitrary: s)
  case Nil
  then show ?case by simp
next
  case (Cons j js)
  from Cons.prems(2) obtain t where t: "body j s = Inr t" "for_loop js body t = Inr s'"
    by (auto split: sum.splits)
  have Pt: "P t" using Cons.prems(3) [of j s t] Cons.prems(1) t(1) by simp
  show ?case
  proof (rule Cons.IH [of t])
    show "P t" by (rule Pt)
    show "for_loop js body t = Inr s'" by (rule t(2))
    fix i u u' assume "i \<in> set js" "P u" "body i u = Inr u'"
    then show "P u'" using Cons.prems(3) [of i u u'] by simp
  qed
qed

lemma momentum_day_cool:
  assumes "momentum_day osc stock_prices k T_over T_under amount fees c t st = Inr st'"
    and "cool_inv c (int t - 1) l0 (snd (fst st)) (snd st)"
  shows "cool_inv c (int t) l0 (snd (fst st')) (snd st')"
proof -
  let ?P = "\<lambda>u :: (int list \<times> ledger) \<times> int list. cool_inv c (int t) l0 (snd (fst u)) (snd u)"
  have start: "?P (fst st, cool_off_tick c (snd st))"
    using cool_off_tick_inv [OF assms(2)] by simp
  show ?thesis
  proof (rule for_loop_preserves [where P = ?P, OF start])
    show "for_loop [0..<shape1 stock_prices]
            (momentum_body osc stock_prices k T_over T_under amount fees c t)
            (fst st, cool_off_tick c (snd st)) = Inr st'"
      using assms(1) by (simp add: momentum_day_def)
  next
    fix i and u u' :: "(int list \<times> ledger) \<times> int list"
    assume "?P u" and b: "momentum_body osc stock_prices k T_over T_under amount fees c t i u = Inr u'"
    obtain pf l co where u: "u = ((pf, l), co)" by (cases u) auto
    obtain pf' l' co' where u': "u' = ((pf', l'), co')" by (cases u') auto
    show "?P u'"
      using momentum_body_cool [of osc stock_prices k T_over T_under amount fees c t i pf l co pf' l' co' l0]
        b \<open>?P u\<close> u u' by simp
  qed
qed

lemma momentum_days_cool:
  assumes "for_loop [k..<days] (momentum_day osc stock_prices k0 T_over T_under amount fees c)
             ((pf, l0), co) = Inr st'"
  shows "\<exists>l2. snd (fst st') = l0 @ l2 \<and> cooled c l2"
proof (cases "k \<le> days")
  case True
  let ?I = "\<lambda>i (u :: (int list \<times> ledger) \<times> int list). cool_inv c (int i - 1) l0 (snd (fst u)) (snd u)"
  have "?I days st'"
  proof (rule for_loop_upt_partial [where I = ?I, OF True _ _ assms])
    show "?I k ((pf, l0), co)" by (simp add: cool_inv_def cooled_def)
  next
    fix i and u u' :: "(int list \<times> ledger) \<times> int list"
    assume "?I i u" "momentum_day osc stock_prices k0 T_over T_under amount fees c i u = Inr u'"
    then show "?I (Suc i) u'"
      using momentum_day_cool [of osc stock_prices k0 T_over T_under amount fees c i u u' l0] by simp
  qed
  then show ?thesis unfolding cool_inv_def by blast
next
  case False
  then have "st' = ((pf, l0), co)" using assms by simp
  then show ?thesis by (simp add: cooled_def)
qed

lemma create_portfolio_length:
  assumes "create_portfolio amounts stock_prices fees ledger_file = Inr (pf, l)"
  shows "length l = length ledger_file + shape1 stock_prices"
proof -
  let ?I = "\<lambda>i (u :: int list \<times> ledger). length (snd u) = length ledger_file + i"
  let ?body = "\<lambda>i (portfolio, l).
          case py_get amounts (int i) of
            Inl e \<Rightarrow> Inl e
          | Inr a \<Rightarrow> buy 0 i a stock_prices fees portfolio l"
  have "?I (shape1 stock_prices) (pf, l)"
  proof (rule for_loop_upt_partial [where I = ?I and body = ?body])
    show "0 \<le> shape1 stock_prices" by simp
    show "?I 0 (replicate (shape1 stock_prices) 0, ledger_file)" by simp
    show "for_loop [0..<shape1 stock_prices] ?body (replicate (shape1 stock_prices) 0, ledger_file)
            = Inr (pf, l)"
      using assms by (simp add: create_portfolio_def)
  next
    fix i and u u' :: "int list \<times> ledger"
    assume inv: "?I i u" and step: "?body i u = Inr u'"
    obtain p1 l1 where u: "u = (p1, l1)" by (cases u)
    obtain p2 l2 where u': "u' = (p2, l2)" by (cases u')
    from step u u' obtain a where "buy 0 i a stock_prices fees p1 l1 = Inr (p2, l2)"
      by (auto split: sum.splits)
    from buy_appends [OF this] obtain e where "l2 = l1 @ [e]" by blast
    then show "?I (Suc i) u'" using inv u u' by simp
  qed
  then show ?thesis by simp
qed

lemma final_sell_appends_sells:
  assumes "final_sell stock_prices fees (pf, l) = Inr (pf', l')"
  shows "\<exists>l3. l' = l @ l3 \<and> (\<forall>e\<in>set l3. e_type e = ''sell'')"
proof -
  let ?P = "\<lambda>u :: int list \<times> ledger. \<exists>l3. snd u = l @ l3 \<and> (\<forall>e\<in>set l3. e_type e = ''sell'')"
  let ?body = "\<lambda>stock_number (portfolio, l).
          if shape0 stock_prices = 0 then Inl IndexError
          else bind_err (mat_get stock_prices (shape0 stock_prices - 1) stock_number) (\<lambda>p.
            if \<not> isnan p then
              bind_err (py_get portfolio (int stock_number)) (\<lambda>held.
                if held \<noteq> 0 then
                  sell (shape0 stock_prices - 1) stock_number stock_prices fees portfolio l
                else Inr (portfolio, l))
            else Inr (portfolio, l))"
  have "?P (pf', l')"
  proof (rule for_loop_preserves [where P = ?P and body = ?body and s = "(pf, l)"])
    show "?P (pf, l)" by simp
    show "for_loop [0..<shape1 stock_prices] ?body (pf, l) = Inr (pf', l')"
      using assms by (simp add: final_sell_def)
  next
    fix i and u u' :: "int list \<times> ledger"
    assume inv: "?P u" and step: "?body i u = Inr u'"
    obtain p1 l1 where u: "u = (p1, l1)" by (cases u)
    obtain p2 l2 where u': "u' = (p2, l2)" by (cases u')
    from inv u obtain l3 where l3: "l1 = l @ l3" "\<forall>e\<in>set l3. e_type e = ''sell''" by auto
    from step u u' have "l2 = l1 \<or> sell (shape0 stock_prices - 1) i stock_prices fees p1 l1 = Inr (p2, l2)"
      by (auto simp: bind_err_Inr_iff split: if_splits)
    then show "?P u'"
    proof
      assume "l2 = l1"
      then show ?thesis using l3 u' by simp
    next
      assume "sell (shape0 stock_prices - 1) i stock_prices fees p1 l1 = Inr (p2, l2)"
      from sell_appends [OF this] obtain e where e: "l2 = l1 @ [e]" "e_type e = ''sell''" by blast
      then have "l2 = l @ (l3 @ [e])" "\<forall>x\<in>set (l3 @ [e]). e_type x = ''sell''" using l3 by simp_all
      then show ?thesis using u' by (simp del: append_assoc)
    qed
  qed
  then show ?thesis by simp
qed

text \<open>
  C5, as the code has it. In a run of the Momentum policy that returns, any two buy lines for
  the same stock that the decision loop writes (all lines after those that were in the file
  and the one purchase per stock of the initial portfolio) are at least \<open>cool_off_period\<close> days
  apart. The counters start at \<open>cool_off_period\<close>, so the purchase of day 0 does not delay the
  first purchase of the loop.
\<close>

theorem momentum_cool_off:
  assumes "momentum stock_prices osc_type n T_over T_under amount fees cool_off_period ledger_file
             = Inr (portfolio, l)"
  shows "cooled cool_off_period (drop (length ledger_file + shape1 (as_matrix stock_prices)) l)"
proof -
  let ?sp = "as_matrix stock_prices"
  from assms obtain p0 l0 osc st' where
    cp: "create_portfolio (replicate (shape1 ?sp) amount) ?sp fees ledger_file = Inr (p0, l0)"
    and days: "for_loop [n + 3 - 2..<shape0 ?sp]
                 (momentum_day osc ?sp (n + 3 - 2) T_over T_under amount fees cool_off_period)
                 ((p0, l0), replicate (shape1 ?sp) cool_off_period) = Inr st'"
    and fin: "final_sell ?sp fees (fst st') = Inr (portfolio, l)"
    by (auto simp: momentum_def Let_def bind_err_Inr_iff)
  from momentum_days_cool [OF days] obtain l2 where l2: "snd (fst st') = l0 @ l2"
    "cooled cool_off_period l2" by blast
  have "final_sell ?sp fees (fst (fst st'), snd (fst st')) = Inr (portfolio, l)" using fin by simp
  from final_sell_appends_sells [OF this] obtain l3 where l3: "l = snd (fst st') @ l3"
    "\<forall>e\<in>set l3. e_type e = ''sell''" by blast
  have len: "length l0 = length ledger_file + shape1 ?sp" using create_portfolio_length [OF cp] .
  have "l = l0 @ (l2 @ l3)" using l2(1) l3(1) by simp
  then have "drop (length ledger_file + shape1 ?sp) l = l2 @ l3" using len by simp
  then show ?thesis using cooled_append_sells [OF l2(2) l3(2)] by simp
qed

theorem momentum_cool_off_witness:
  "momentum falling_prices ''stochastic'' 2 (8 / 10) (2 / 10) 5000 20 2 []
     = Inr ([0],
        [\<lparr>e_type = ''buy'', e_date = 0, e_stock = 0, e_shares = 498, e_price = Fin 10, e_cash = Fin (- 5000)\<rparr>,
         \<lparr>e_type = ''buy'', e_date = 3, e_stock = 0, e_shares = 711, e_price = Fin 7, e_cash = Fin (- 4997)\<rparr>,
         \<lparr>e_type = ''buy'', e_date = 5, e_stock = 0, e_shares = 830, e_price = Fin 6, e_cash = Fin (- 5000)\<rparr>,
         \<lparr>e_type = ''buy'', e_date = 7, e_stock = 0, e_shares = 1245, e_price = Fin 4, e_cash = Fin (- 5000)\<rparr>,
         \<lparr>e_type = ''sell'', e_date = 8, e_stock = 0, e_shares = 3284, e_price = Fin 3, e_cash = Fin 9832\<rparr>])
   \<and> cooled 2 (drop (length ([] :: ledger) + shape1 (as_matrix falling_prices))
        [\<lparr>e_type = ''buy'', e_date = 0, e_stock = 0, e_shares = 498, e_price = Fin 10, e_cash = Fin (- 5000)\<rparr>,
         \<lparr>e_type = ''buy'', e_date = 3, e_stock = 0, e_shares = 711, e_price = Fin 7, e_cash = Fin (- 4997)\<rparr>,
         \<lparr>e_type = ''buy'', e_date = 5, e_stock = 0, e_shares = 830, e_price = Fin 6, e_cash = Fin (- 5000)\<rparr>,
         \<lparr>e_type = ''buy'', e_date = 7, e_stock = 0, e_shares = 1245, e_price = Fin 4, e_cash = Fin (- 5000)\<rparr>,
         \<lparr>e_type = ''sell'', e_date = 8, e_stock = 0, e_shares = 3284, e_price = Fin 3, e_cash = Fin 9832\<rparr>])"
proof -
  have e: "momentum falling_prices ''stochastic'' 2 (8 / 10) (2 / 10) 5000 20 2 []
     = Inr ([0],
        [\<lparr>e_type = ''buy'', e_date = 0, e_stock = 0, e_shares = 498, e_price = Fin 10, e_cash = Fin (- 5000)\<rparr>,
         \<lparr>e_type = ''buy'', e_date = 3, e_stock = 0, e_shares = 711, e_price = Fin 7, e_cash = Fin (- 4997)\<rparr>,
         \<lparr>e_type = ''buy'', e_date = 5, e_stock = 0, e_shares = 830, e_price = Fin 6, e_cash = Fin (- 5000)\<rparr>,
         \<lparr>e_type = ''buy'', e_date = 7, e_stock = 0, e_shares = 1245, e_price = Fin 4, e_cash = Fin (- 5000)\<rparr>,
         \<lparr>e_type = ''sell'', e_date = 8, e_stock = 0, e_shares = 3284, e_price = Fin 3, e_cash = Fin 9832\<rparr>])"
    by code_simp
  show ?thesis using e momentum_cool_off [OF e] by blast
qed

text \<open>With the default window of 7 and cool-off of 10 days, a price that falls every day is
  bought on day 0 and again on day 8.\<close>

theorem momentum_cool_off_counterexample:
  "momentum steady_fall ''stochastic'' 7 (8 / 10) (2 / 10) 5000 20 10 []
     = Inr ([0],
        [\<lparr>e_type = ''buy'', e_date = 0, e_stock = 0, e_shares = 498, e_price = Fin 10, e_cash = Fin (- 5000)\<rparr>,
         \<lparr>e_type = ''buy'', e_date = 8, e_stock = 0, e_shares = 2490, e_price = Fin 2, e_cash = Fin (- 5000)\<rparr>,
         \<lparr>e_type = ''sell'', e_date = 8, e_stock = 0, e_shares = 2988, e_price = Fin 2, e_cash = Fin 5956\<rparr>])
   \<and> \<not> cooled 10
        [\<lparr>e_type = ''buy'', e_date = 0, e_stock = 0, e_shares = 498, e_price = Fin 10, e_cash = Fin (- 5000)\<rparr>,
         \<lparr>e_type = ''buy'', e_date = 8, e_stock = 0, e_shares = 2490, e_price = Fin 2, e_cash = Fin (- 5000)\<rparr>,
         \<lparr>e_type = ''sell'', e_date = 8, e_stock = 0, e_shares = 2988, e_price = Fin 2, e_cash = Fin 5956\<rparr>]"
proof -
  let ?L = "[\<lparr>e_type = ''buy'', e_date = 0, e_stock = 0, e_shares = 498, e_price = Fin 10, e_cash = Fin (- 5000)\<rparr>,
         \<lparr>e_type = ''buy'', e_date = 8, e_stock = 0, e_shares = 2490, e_price = Fin 2, e_cash = Fin (- 5000)\<rparr>,
         \<lparr>e_type = ''sell'', e_date = 8, e_stock = 0, e_shares = 2988, e_price = Fin 2, e_cash = Fin 5956\<rparr>]"
  have e: "momentum steady_fall ''stochastic'' 7 (8 / 10) (2 / 10) 5000 20 10 [] = Inr ([0], ?L)"
    by code_simp
  have "\<not> cooled 10 ?L"
  proof
    assume "cooled 10 ?L"
    then have "(0::nat) < 1 \<and> (1::nat) < length ?L \<and> e_type (?L ! 0) = ''buy'' \<and> e_type (?L ! 1) = ''buy''
            \<and> e_stock (?L ! 0) = e_stock (?L ! 1)
        \<longrightarrow> 10 \<le> int (e_date (?L ! 1)) - int (e_date (?L ! 0))"
      unfolding cooled_def by blast
    then show False by simp
  qed
  then show ?thesis using e by blast
qed


subsection \<open>An undefined oscillator level in the Momentum policy\<close>

text \<open>
  C3 on the code. The price stands still from day 3 to day 4, so the stochastic oscillator
  with a window of 2 is undefined on day 4 only and is 0 on every other day. The smoothing
  \<open>moving_average\<close> takes the not-a-number for a company failure and ends the smoothed
  series at day 3: the policy buys on day 3 and never again, although from day 7 on the three
  levels that are averaged are all defined and below \<open>T_under\<close> and the cool-off of 2 days
  is over. (Without the flat day, \<open>falling_prices\<close> is bought on days 3, 5 and 7.)
\<close>

theorem momentum_undefined_level_ends_trading:
  "oscillator [Fin 10, Fin 9, Fin 8, Fin 7, Fin 7, Fin 6, Fin 5, Fin 4, Fin 3] 2 ''stochastic''
     = Inr [Fin 0, Fin 0, Fin 0, NaN, Fin 0, Fin 0, Fin 0, Fin 0]
   \<and> moving_average [Fin 0, Fin 0, Fin 0, NaN, Fin 0, Fin 0, Fin 0, Fin 0] 3 [] = Inr [Fin 0]
   \<and> momentum flat_day_prices ''stochastic'' 2 (8 / 10) (2 / 10) 5000 20 2 []
     = Inr ([0],
        [\<lparr>e_type = ''buy'', e_date = 0, e_stock = 0, e_shares = 498, e_price = Fin 10, e_cash = Fin (- 5000)\<rparr>,
         \<lparr>e_type = ''buy'', e_date = 3, e_stock = 0, e_shares = 711, e_price = Fin 7, e_cash = Fin (- 4997)\<rparr>,
         \<lparr>e_type = ''sell'', e_date = 8, e_stock = 0, e_shares = 1209, e_price = Fin 3, e_cash = Fin 3607\<rparr>])"
  by code_simp

end
